theory Spec2Isabelle
  imports Complex_Main
begin

section \<open>Market stress engine: data model\<close>

text \<open>
  The engine (\<^verbatim>\<open>src/market_stress_engine.py\<close>) works on IEEE doubles. They are modelled
  by real numbers, so rounding is not part of the model, except for the weighted average
  of \<^verbatim>\<open>compute\<close>, which is given a second time with every operation rounded; the
  one non-number a double can hold and the code can meet, NaN, is the value \<open>None\<close> of
  \<open>real option\<close>. Python exceptions are values of \<open>exn\<close>, and a
  function that may raise returns \<open>exn + 'a\<close> with \<open>Inl\<close> for the exception.
\<close>

datatype exn = ProviderError | KeyError | IndexError

text \<open>
  A pandas DataFrame, as far as the engine looks at it: the length of its index and its
  columns by name. \<^verbatim>\<open>pd.DataFrame()\<close> has neither rows nor columns.
\<close>

record dataframe =
  index_len :: nat
  columns :: "(string \<times> real option list) list"

definition DataFrame :: dataframe where
  "DataFrame = \<lparr>index_len = 0, columns = []\<rparr>"

definition len :: "dataframe \<Rightarrow> nat" where
  "len df = index_len df"

definition empty :: "dataframe \<Rightarrow> bool" where
  \<comment> \<open>\<^verbatim>\<open>df.empty\<close>: some axis has length 0\<close>
  "empty df \<longleftrightarrow> index_len df = 0 \<or> columns df = []"

definition getitem :: "dataframe \<Rightarrow> string \<Rightarrow> exn + real option list" where
  \<comment> \<open>\<^verbatim>\<open>df[name]\<close> raises KeyError for a column that is not there\<close>
  "getitem df name = (case map_of (columns df) name of None \<Rightarrow> Inl KeyError | Some c \<Rightarrow> Inr c)"

text \<open>
  The data provider behind a \<^verbatim>\<open>DataManager\<close>: what
  \<^verbatim>\<open>yf.Ticker(ticker).history(start=..., end=...)\<close> does for the manager's date range,
  a frame or an exception.
\<close>

type_synonym provider = "string \<Rightarrow> exn + dataframe"

subsection \<open>Configuration tables\<close>

definition TICKERS :: "(string \<times> string) list" where
  "TICKERS =
    [(''EURUSD=X'', ''EUR/USD''),
     (''GC=F'', ''Gold''),
     (''CL=F'', ''Crude Oil''),
     (''DX-Y.NYB'', ''DXY''),
     (''^BCOM'', ''Bloomberg Commodity Index''),
     (''^SPGSCI'', ''S&P GSCI''),
     (''^VIX'', ''VIX''),
     (''^GVZ'', ''GVZ'')]"

definition WEIGHTS :: "(string \<times> real) list" where
  "WEIGHTS =
    [(''EURUSD=X'', 0.07),
     (''GC=F'', 0.10),
     (''CL=F'', 0.10),
     (''DX-Y.NYB'', 0.05),
     (''^BCOM'', 0.10),
     (''^SPGSCI'', 0.10),
     (''^VIX'', 0.23),
     (''^GVZ'', 0.25)]"

section \<open>Library functions the engine calls\<close>

subsection \<open>Python's \<^verbatim>\<open>min\<close> and \<^verbatim>\<open>max\<close> of two arguments\<close>

text \<open>
  \<^verbatim>\<open>min(a, b)\<close> is \<^verbatim>\<open>b\<close> if \<^verbatim>\<open>b < a\<close> and \<^verbatim>\<open>a\<close> otherwise;
  \<^verbatim>\<open>max(a, b)\<close> is \<^verbatim>\<open>b\<close> if \<^verbatim>\<open>b > a\<close> and \<^verbatim>\<open>a\<close> otherwise. A comparison
  with NaN is false, so \<^verbatim>\<open>min(100, nan)\<close> is 100.
\<close>

definition py_min :: "real \<Rightarrow> real option \<Rightarrow> real" where
  "py_min a b = (case b of None \<Rightarrow> a | Some y \<Rightarrow> if y < a then y else a)"

definition py_max :: "real \<Rightarrow> real \<Rightarrow> real" where
  "py_max a b = (if b > a then b else a)"

subsection \<open>numpy: mean, standard deviation, weighted average\<close>

definition np_mean :: "real list \<Rightarrow> real" where
  \<comment> \<open>\<^verbatim>\<open>np.mean\<close> of a non-empty array\<close>
  "np_mean xs = sum_list xs / real (length xs)"

definition np_std :: "real list \<Rightarrow> real" where
  \<comment> \<open>\<^verbatim>\<open>np.std\<close> with its default \<^verbatim>\<open>ddof=0\<close>: the divisor is the number of values\<close>
  "np_std xs = sqrt (np_mean (map (\<lambda>x. (x - np_mean xs)\<^sup>2) xs))"

definition np_mean_nan :: "real list \<Rightarrow> real option" where
  \<comment> \<open>\<^verbatim>\<open>np.mean\<close> of any array: NaN for the empty one\<close>
  "np_mean_nan xs = (if xs = [] then None else Some (np_mean xs))"

definition np_average :: "real list \<Rightarrow> real list \<Rightarrow> real" where
  \<comment> \<open>\<^verbatim>\<open>np.average(a, weights=w)\<close> for weights of non-zero sum, in exact arithmetic\<close>
  "np_average xs ws = sum_list (map2 (*) xs ws) / sum_list ws"

subsection \<open>The error function of \<^verbatim>\<open>math\<close>\<close>

text \<open>
  \<^verbatim>\<open>math.erf\<close> is the error function, here by its Maclaurin series
  \<open>2 / sqrt pi * (\<Sum>k. (-1)^k * x^(2k+1) / (k! * (2k+1)))\<close>, written as a power series
  in \<open>x\<close> whose odd coefficients vanish.
\<close>

definition erf_coeff :: "nat \<Rightarrow> real" where
  "erf_coeff n = (if even n then (- 1) ^ (n div 2) / (fact (n div 2) * real (Suc n)) else 0)"

definition erf :: "real \<Rightarrow> real" where
  "erf x = 2 / sqrt pi * (\<Sum>n. erf_coeff n * x ^ Suc n)"

subsection \<open>pandas: \<^verbatim>\<open>pct_change\<close>, \<^verbatim>\<open>rolling(window).std()\<close>, \<^verbatim>\<open>dropna\<close>, \<^verbatim>\<open>iloc[-1]\<close>\<close>

text \<open>
  \<^verbatim>\<open>Series.pct_change()\<close> (pandas 2): missing values are filled forward, then each value
  is divided by its predecessor and 1 is subtracted; the first entry has no predecessor and
  is NaN. Dividing by a zero close gives an infinity or NaN: both are \<open>None\<close> here, since
  the only reader of the returns, \<^verbatim>\<open>rolling\<close>, turns infinities into NaN before it
  computes anything.
\<close>

fun ffill :: "real option \<Rightarrow> real option list \<Rightarrow> real option list" where
  "ffill prev [] = []"
| "ffill prev (None # xs) = prev # ffill prev xs"
| "ffill prev (Some v # xs) = Some v # ffill (Some v) xs"

definition pct :: "real option \<Rightarrow> real option \<Rightarrow> real option" where
  "pct prev cur =
     (case (prev, cur) of
        (Some p, Some c) \<Rightarrow> if p = 0 then None else Some (c / p - 1)
      | _ \<Rightarrow> None)"

fun pct_from :: "real option \<Rightarrow> real option list \<Rightarrow> real option list" where
  "pct_from prev [] = []"
| "pct_from prev (x # xs) = pct prev x # pct_from x xs"

definition pct_change :: "real option list \<Rightarrow> real option list" where
  "pct_change xs = pct_from None (ffill None xs)"

definition pd_std :: "real list \<Rightarrow> real" where
  \<comment> \<open>pandas' \<^verbatim>\<open>std\<close> with its default \<^verbatim>\<open>ddof=1\<close>, for at least two values\<close>
  "pd_std xs = sqrt (sum_list (map (\<lambda>x. (x - np_mean xs)\<^sup>2) xs) / (real (length xs) - 1))"

definition window_std :: "real option list \<Rightarrow> real option" where
  \<comment> \<open>one window; \<^verbatim>\<open>min_periods\<close> is the window length, so one NaN makes the result NaN\<close>
  "window_std w =
     (if None \<in> set w \<or> length w \<le> 1 then None else Some (pd_std (map the w)))"

definition rolling_std :: "nat \<Rightarrow> real option list \<Rightarrow> real option list" where
  "rolling_std w xs =
     map (\<lambda>i. if i + 1 < w then None else window_std (take w (drop (i + 1 - w) xs)))
       [0..<length xs]"

definition dropna :: "real option list \<Rightarrow> real list" where
  "dropna xs = map the (filter (\<lambda>x. x \<noteq> None) xs)"

definition iloc_last :: "'a list \<Rightarrow> exn + 'a" where
  \<comment> \<open>\<^verbatim>\<open>s.iloc[-1]\<close> raises IndexError on an empty series\<close>
  "iloc_last xs = (if xs = [] then Inl IndexError else Inr (last xs))"

section \<open>The engine\<close>

subsection \<open>\<^verbatim>\<open>DataManager.get_history\<close>\<close>

text \<open>
  Any exception of the provider becomes the empty frame. The method's \<^verbatim>\<open>lru_cache\<close>
  is left out: one \<^verbatim>\<open>compute\<close> asks for each ticker once.
\<close>

definition get_history :: "provider \<Rightarrow> string \<Rightarrow> dataframe" where
  "get_history dm ticker = (case dm ticker of Inl e \<Rightarrow> DataFrame | Inr df \<Rightarrow> df)"

subsection \<open>\<^verbatim>\<open>Indicator.scale_with_history\<close>\<close>

text \<open>
  The history \<open>values\<close> holds numbers (the caller drops undefined entries first); the
  current reading may be NaN, which the z-score, the error function and the product hand
  on, and which \<^verbatim>\<open>max(0, min(100, sc))\<close> then turns into 100.
\<close>

definition scale_with_history :: "real list \<Rightarrow> real option \<Rightarrow> real" where
  "scale_with_history values current =
     (if length values < 10 then 50
      else
        let m = np_mean values;
            s = np_std values
        in if s < 1 / 10 ^ 8 then 50
           else
             let z = map_option (\<lambda>c. (c - m) / s) current;
                 sc = map_option (\<lambda>z. 0.5 * (1 + erf (z / sqrt 2)) * 100) z
             in py_max 0 (py_min 100 sc))"

subsection \<open>\<^verbatim>\<open>VolatilityIndicator.calculate\<close>\<close>

definition volatility_of :: "real option list \<Rightarrow> real option list" where
  \<comment> \<open>\<^verbatim>\<open>df["Close"].pct_change().rolling(window=10).std() * 100\<close>\<close>
  "volatility_of close = map (map_option (\<lambda>v. v * 100)) (rolling_std 10 (pct_change close))"

definition calculate :: "provider \<Rightarrow> string \<Rightarrow> exn + real" where
  "calculate dm ticker =
     (let df = get_history dm ticker
      in if empty df \<or> len df < 10 then Inr 50
         else
           (case getitem df ''Close'' of
              Inl e \<Rightarrow> Inl e
            | Inr close \<Rightarrow>
                (let volatility = volatility_of close;
                     vol_series = dropna volatility
                 in (case iloc_last volatility of
                       Inl e \<Rightarrow> Inl e
                     | Inr current_vol \<Rightarrow> Inr (scale_with_history vol_series current_vol)))))"

subsection \<open>\<^verbatim>\<open>CompositeStress.compute\<close>\<close>

text \<open>
  The loop over the indicators appends one value per instrument: the indicator's result,
  or 50 when \<^verbatim>\<open>calculate\<close> raised. The instrument list and the weight table are
  arguments of \<open>compute_with\<close>; \<open>compute\<close> is the engine's own instance, over the module's
  \<^verbatim>\<open>TICKERS\<close> and \<^verbatim>\<open>WEIGHTS\<close>.
\<close>

fun collect_values :: "provider \<Rightarrow> string list \<Rightarrow> real list \<Rightarrow> real list" where
  "collect_values dm [] values = values"
| "collect_values dm (ind # inds) values =
     collect_values dm inds
       (values @ [case calculate dm ind of Inr v \<Rightarrow> v | Inl e \<Rightarrow> 50])"

definition weights_get :: "(string \<times> real) list \<Rightarrow> string \<Rightarrow> real" where
  \<comment> \<open>\<^verbatim>\<open>WEIGHTS.get(ticker, 0.0)\<close>\<close>
  "weights_get wtab ticker = (case map_of wtab ticker of None \<Rightarrow> 0 | Some w \<Rightarrow> w)"

definition raw_composite :: "real list \<Rightarrow> real list \<Rightarrow> real option" where
  "raw_composite values weights =
     (if sum_list weights > 0 then Some (np_average values weights)
      else np_mean_nan values)"

definition compute_with :: "string list \<Rightarrow> (string \<times> real) list \<Rightarrow> provider \<Rightarrow> real \<times> real list" where
  "compute_with indicators wtab dm =
     (let values = collect_values dm indicators [];
          weights = map (weights_get wtab) indicators;
          composite = raw_composite values weights
      in (py_max 0 (py_min 100 composite), values))"

definition compute :: "provider \<Rightarrow> real \<times> real list" where
  "compute dm = compute_with (map fst TICKERS) WEIGHTS dm"

subsection \<open>The aggregation in double arithmetic\<close>

text \<open>
  Where rounding decides a claim, in the weighted average of \<^verbatim>\<open>compute\<close>, the
  arithmetic is also given as the doubles do it. \<open>fl\<close> rounds a real to the nearest
  binary64 number, ties to the even significand; the quantum is \<open>2\<close> to the power
  \<open>e - 52\<close> for the binade \<open>e\<close> of the argument, and that of the subnormals below
  \<open>2\<close> to the power \<open>- 1022\<close>. Overflow to infinity is left out: it starts at
  \<open>2\<close> to the power 1024, far from any score or weight.
\<close>

definition round_half_even :: "real \<Rightarrow> int" where
  "round_half_even r =
     (if r - of_int \<lfloor>r\<rfloor> < 1 / 2 then \<lfloor>r\<rfloor>
      else if 1 / 2 < r - of_int \<lfloor>r\<rfloor> then \<lfloor>r\<rfloor> + 1
      else if even \<lfloor>r\<rfloor> then \<lfloor>r\<rfloor> else \<lfloor>r\<rfloor> + 1)"

definition fl :: "real \<Rightarrow> real" where
  "fl x =
     (if x = 0 then 0
      else
        let e = max \<lfloor>log 2 \<bar>x\<bar>\<rfloor> (- 1022) - 52
        in of_int (round_half_even (x / 2 powi e)) * 2 powi e)"

text \<open>
  \<^verbatim>\<open>ndarray.sum\<close> on doubles is numpy's pairwise summation: a plain loop below 8
  elements; up to 128 elements eight running sums over blocks of 8, added as a balanced
  tree, then the remaining elements one by one; above that the array split in two at a
  multiple of 8. Every addition rounds. \<^verbatim>\<open>np.average\<close> multiplies element by
  element, sums the products and the weights, and divides; \<^verbatim>\<open>np.mean\<close> sums and
  divides by the count. A decimal literal of the weight table is the double nearest to
  it. The scores stay those of the scorer above.
\<close>

fun add_blocks :: "real list \<Rightarrow> real list \<Rightarrow> real list \<times> real list" where
  "add_blocks r (x0 # x1 # x2 # x3 # x4 # x5 # x6 # x7 # xs) =
     add_blocks (map2 (\<lambda>a b. fl (a + b)) r [x0, x1, x2, x3, x4, x5, x6, x7]) xs"
| "add_blocks r xs = (r, xs)"

definition tree8 :: "real list \<Rightarrow> real" where
  "tree8 r =
     fl (fl (fl (r ! 0 + r ! 1) + fl (r ! 2 + r ! 3)) + fl (fl (r ! 4 + r ! 5) + fl (r ! 6 + r ! 7)))"

function pairwise_sum :: "real list \<Rightarrow> real" where
  "pairwise_sum a =
     (if length a < 8 then foldl (\<lambda>res x. fl (res + x)) 0 a
      else if length a \<le> 128 then
        (case add_blocks (take 8 a) (drop 8 a) of
           (r, rest) \<Rightarrow> foldl (\<lambda>res x. fl (res + x)) (tree8 r) rest)
      else
        fl (pairwise_sum (take (length a div 2 - length a div 2 mod 8) a)
            + pairwise_sum (drop (length a div 2 - length a div 2 mod 8) a)))"
  by pat_completeness auto
termination
  by (relation "measure length") auto

declare pairwise_sum.simps [simp del]

definition np_multiply_fl :: "real list \<Rightarrow> real list \<Rightarrow> real list" where
  "np_multiply_fl xs ws = map2 (\<lambda>x w. fl (x * w)) xs ws"

definition np_average_fl :: "real list \<Rightarrow> real list \<Rightarrow> real" where
  "np_average_fl xs ws = fl (pairwise_sum (np_multiply_fl xs ws) / pairwise_sum ws)"

definition np_mean_fl :: "real list \<Rightarrow> real option" where
  "np_mean_fl xs = (if xs = [] then None else Some (fl (pairwise_sum xs / real (length xs))))"

definition raw_composite_fl :: "real list \<Rightarrow> real list \<Rightarrow> real option" where
  "raw_composite_fl values weights =
     (if pairwise_sum weights > 0 then Some (np_average_fl values weights)
      else np_mean_fl values)"

definition compute_with_fl :: "string list \<Rightarrow> (string \<times> real) list \<Rightarrow> provider \<Rightarrow> real \<times> real list" where
  "compute_with_fl indicators wtab dm =
     (let values = collect_values dm indicators [];
          weights = map (\<lambda>t. fl (weights_get wtab t)) indicators;
          composite = raw_composite_fl values weights
      in (py_max 0 (py_min 100 composite), values))"

subsection \<open>The previous session's date range (\<^verbatim>\<open>main\<close> and the dashboard)\<close>

text \<open>
  A date is its proleptic Gregorian ordinal (\<^verbatim>\<open>date.toordinal()\<close>), and
  \<^verbatim>\<open>date.weekday()\<close> is \<open>(ordinal + 6) mod 7\<close>, Monday being 0.
  \<^verbatim>\<open>pd.bdate_range(end=e, periods=n)\<close> rolls \<open>e\<close> back to a business day when it is
  not one, then lists the \<open>n\<close> business days that end there.
\<close>

type_synonym date = int

definition weekday :: "date \<Rightarrow> int" where
  "weekday d = (d + 6) mod 7"

definition rollback :: "date \<Rightarrow> date" where
  "rollback d = (if weekday d < 5 then d else d - (weekday d - 4))"

definition prev_bday :: "date \<Rightarrow> date" where
  \<comment> \<open>one business day before a business day\<close>
  "prev_bday d = (if weekday d = 0 then d - 3 else d - 1)"

fun bdays_ending :: "date \<Rightarrow> nat \<Rightarrow> date list" where
  "bdays_ending d 0 = []"
| "bdays_ending d (Suc n) = bdays_ending (prev_bday d) n @ [d]"

definition bdate_range :: "date \<Rightarrow> nat \<Rightarrow> date list" where
  "bdate_range e periods = bdays_ending (rollback e) periods"

definition py_index :: "'a list \<Rightarrow> int \<Rightarrow> exn + 'a" where
  \<comment> \<open>\<^verbatim>\<open>xs[i]\<close>: a negative index counts from the end\<close>
  "py_index xs i =
     (let n = int (length xs); j = (if i < 0 then n + i else i)
      in if 0 \<le> j \<and> j < n then Inr (xs ! nat j) else Inl IndexError)"

definition last_business_day :: "date \<Rightarrow> exn + date" where
  "last_business_day end_date = py_index (bdate_range end_date 2) (- 2)"

definition comparison_range :: "date \<Rightarrow> exn + date \<times> date" where
  \<comment> \<open>\<^verbatim>\<open>(yesterday_start_str, yesterday_end_str)\<close>\<close>
  "comparison_range end_date =
     (case last_business_day end_date of
        Inl e \<Rightarrow> Inl e
      | Inr d \<Rightarrow> Inr (d - 365 * 3, d))"

section \<open>Notions of the specification\<close>

text \<open>
  The notions the specification states its formulas in: the standard normal distribution
  function \<open>\<Phi>\<close>, the mean of a sample, its standard deviation with divisor \<open>N\<close>
  (population form) and with divisor \<open>N - 1\<close> (the sample standard deviation),
  clamping to an interval, the weighted average of a list of scores, and the stress score
  of one instrument.
\<close>

definition Phi :: "real \<Rightarrow> real" where
  "Phi z = 0.5 * (1 + erf (z / sqrt 2))"

definition sample_mean :: "real list \<Rightarrow> real" where
  "sample_mean H = (\<Sum>i<length H. H ! i) / real (length H)"

definition population_std :: "real list \<Rightarrow> real" where
  "population_std H = sqrt ((\<Sum>i<length H. (H ! i - sample_mean H)\<^sup>2) / real (length H))"

definition sample_std :: "real list \<Rightarrow> real" where
  "sample_std H = sqrt ((\<Sum>i<length H. (H ! i - sample_mean H)\<^sup>2) / (real (length H) - 1))"

definition clamp :: "real \<Rightarrow> real \<Rightarrow> real \<Rightarrow> real" where
  "clamp lo hi x = max lo (min hi x)"

definition weighted_average :: "real list \<Rightarrow> real list \<Rightarrow> real" where
  \<comment> \<open>the average of the values \<open>vs\<close>, each with its weight in \<open>ws\<close>\<close>
  "weighted_average vs ws = (\<Sum>i<length vs. ws ! i * vs ! i) / (\<Sum>i<length vs. ws ! i)"

definition score_or_neutral :: "provider \<Rightarrow> string \<Rightarrow> real" where
  \<comment> \<open>an instrument's stress score: what \<open>calculate\<close> returns, the neutral 50 when it raises\<close>
  "score_or_neutral dm ticker = (case calculate dm ticker of Inl e \<Rightarrow> 50 | Inr v \<Rightarrow> v)"

subsection \<open>Example providers\<close>

text \<open>
  A provider that raises for gold and answers every other ticker with a ten-row frame
  that has no \<^verbatim>\<open>Close\<close> column.
\<close>

definition example_provider :: provider where
  "example_provider t =
     (if t = ''GC=F'' then Inl ProviderError
      else Inr \<lparr>index_len = 10, columns = [(''Open'', replicate 10 (Some 1))]\<rparr>)"

text \<open>
  A provider that raises for every ticker but the VIX, whose 21 closes are 1 but for a
  0 on the day before the last: ten volatility values are defined, the last one is not.
\<close>

definition example_spike :: provider where
  "example_spike t =
     (if t = ''^VIX'' then
        Inr \<lparr>index_len = 21,
             columns = [(''Close'',
               [Some 1, Some 1, Some 1, Some 1, Some 1, Some 1, Some 1, Some 1, Some 1, Some 1,
                Some 1, Some 1, Some 1, Some 1, Some 1, Some 1, Some 1, Some 1, Some 1, Some 0,
                Some 1])]\<rparr>
      else Inl ProviderError)"

section \<open>Properties of the error function\<close>

text \<open>
  The series differentiates term by term to the series of \<open>exp (- x\<^sup>2)\<close>, so the
  error function has a positive derivative everywhere: it is strictly increasing, and on
  the non-negative axis it stays below its tangent at 0.
\<close>

lemma erf_deriv_sums:
  "(\<lambda>n. erf_coeff n * real (Suc n) * x ^ n) sums exp (- (x\<^sup>2))"
proof -
  have e: "(\<lambda>k. (- (x\<^sup>2)) ^ k /\<^sub>R fact k) sums exp (- (x\<^sup>2))"
    by (rule exp_converges)
  have z: "(\<lambda>k::nat. 0::real) sums 0"
    by (rule sums_zero)
  have "(\<lambda>n. if even n then (- (x\<^sup>2)) ^ (n div 2) /\<^sub>R fact (n div 2) else 0) sums (0 + exp (- (x\<^sup>2)))"
    using sums_if [OF z e] by simp
  moreover have "(if even n then (- (x\<^sup>2)) ^ (n div 2) /\<^sub>R fact (n div 2) else 0)
      = erf_coeff n * real (Suc n) * x ^ n" for n
  proof (cases "even n")
    case True
    then obtain k where k: "n = 2 * k" by (auto elim: evenE)
    have p: "(- (x\<^sup>2)) ^ k = (- 1) ^ k * x ^ (2 * k)"
      by (simp add: power_mult power_minus [of "x\<^sup>2"])
    have c: "erf_coeff n * real (Suc n) = (- 1) ^ k / fact k"
      using k by (simp add: erf_coeff_def)
    show ?thesis
      unfolding c using True k p by (simp add: divide_inverse)
  next
    case False
    then show ?thesis by (simp add: erf_coeff_def)
  qed
  ultimately show ?thesis by simp
qed

lemma erf_series_DERIV:
  "DERIV (\<lambda>x. \<Sum>n. erf_coeff n * x ^ Suc n) x :> exp (- (x\<^sup>2))"
proof -
  have "DERIV (\<lambda>x. \<Sum>n. erf_coeff n * x ^ Suc n) x :> (\<Sum>n. erf_coeff n * real (Suc n) * x ^ n)"
  proof (rule DERIV_power_series' [where R = "\<bar>x\<bar> + 1"])
    show "summable (\<lambda>n. erf_coeff n * real (Suc n) * y ^ n)" for y
      using erf_deriv_sums [of y] by (rule sums_summable)
    show "x \<in> {- (\<bar>x\<bar> + 1)<..<\<bar>x\<bar> + 1}" by auto
    show "0 < \<bar>x\<bar> + 1" by simp
  qed
  moreover have "(\<Sum>n. erf_coeff n * real (Suc n) * x ^ n) = exp (- (x\<^sup>2))"
    using erf_deriv_sums [of x] by (rule sums_unique [symmetric])
  ultimately show ?thesis by simp
qed

lemma erf_DERIV: "DERIV erf x :> 2 / sqrt pi * exp (- (x\<^sup>2))"
proof -
  have "erf = (\<lambda>x. 2 / sqrt pi * (\<Sum>n. erf_coeff n * x ^ Suc n))"
    by (rule ext) (simp add: erf_def)
  moreover have "DERIV (\<lambda>x. 2 / sqrt pi * (\<Sum>n. erf_coeff n * x ^ Suc n)) x :> 2 / sqrt pi * exp (- (x\<^sup>2))"
    by (rule DERIV_cmult [OF erf_series_DERIV])
  ultimately show ?thesis by simp
qed

lemma erf_0: "erf 0 = 0"
  by (simp add: erf_def)

lemma erf_strict_mono:
  assumes "a < b"
  shows "erf a < erf b"
proof (rule DERIV_pos_imp_increasing [OF assms])
  fix x :: real
  show "\<exists>y. DERIV erf x :> y \<and> 0 < y"
    using erf_DERIV [of x] by (intro exI [of _ "2 / sqrt pi * exp (- (x\<^sup>2))"]) simp
qed

lemma erf_mono: "a \<le> b \<Longrightarrow> erf a \<le> erf b"
  using erf_strict_mono [of a b] by (cases "a = b") auto

lemma erf_upper: "0 \<le> x \<Longrightarrow> erf x \<le> 2 / sqrt pi * x"
proof -
  assume x: "0 \<le> x"
  let ?g = "\<lambda>t. 2 / sqrt pi * t - erf t"
  have "?g 0 \<le> ?g x"
  proof (rule DERIV_nonneg_imp_nondecreasing [OF x])
    fix t :: real
    have "DERIV ?g t :> 2 / sqrt pi - 2 / sqrt pi * exp (- (t\<^sup>2))"
      by (intro DERIV_diff DERIV_cmult_Id erf_DERIV)
    moreover have "exp (- (t\<^sup>2)) \<le> 1" by simp
    then have "0 \<le> 2 / sqrt pi - 2 / sqrt pi * exp (- (t\<^sup>2))"
      by (simp add: field_simps)
    ultimately show "\<exists>y. DERIV ?g t :> y \<and> 0 \<le> y" by blast
  qed
  then show ?thesis by (simp add: erf_0)
qed

section \<open>Normalisation: \<^verbatim>\<open>scale_with_history\<close>\<close>

lemma sum_list_map_nth: "sum_list (map f xs) = (\<Sum>i<length xs. f (xs ! i))"
proof -
  have "sum_list (map f xs) = (\<Sum>i = 0..<length (map f xs). map f xs ! i)"
    by (rule sum_list_sum_nth)
  also have "\<dots> = (\<Sum>i<length xs. f (xs ! i))"
    by (simp add: atLeast0LessThan)
  finally show ?thesis .
qed

lemma np_mean_eq_sample_mean: "np_mean H = sample_mean H"
  using sum_list_map_nth [of "\<lambda>x. x" H] by (simp add: np_mean_def sample_mean_def)

lemma np_std_eq_population_std: "np_std H = population_std H"
proof -
  have "np_mean (map (\<lambda>x. (x - np_mean H)\<^sup>2) H)
      = (\<Sum>i<length H. (H ! i - np_mean H)\<^sup>2) / real (length H)"
    unfolding np_mean_def [of "map _ _"] sum_list_map_nth by simp
  then show ?thesis
    by (simp add: np_std_def population_std_def np_mean_eq_sample_mean)
qed

lemma pd_std_eq_sample_std: "pd_std H = sample_std H"
  by (simp add: pd_std_def sample_std_def sum_list_map_nth np_mean_eq_sample_mean)

lemma np_std_le_sample_std:
  assumes "2 \<le> length H"
  shows "np_std H \<le> sample_std H"
proof -
  let ?S = "\<Sum>i<length H. (H ! i - sample_mean H)\<^sup>2"
  have "0 \<le> ?S"
    by (intro sum_nonneg) simp
  moreover have "real (length H) - 1 \<le> real (length H)"
    by simp
  moreover have "0 < (real (length H) - 1) * real (length H)"
  proof -
    have "2 \<le> real (length H)"
      using assms by simp
    then show ?thesis
      by (intro mult_pos_pos) linarith+
  qed
  ultimately have "?S / real (length H) \<le> ?S / (real (length H) - 1)"
    by (intro divide_left_mono) (simp_all add: mult.commute)
  then show ?thesis
    unfolding np_std_eq_population_std population_std_def sample_std_def by simp
qed

lemma py_clamp_eq: "py_max 0 (py_min 100 (Some x)) = clamp 0 100 x"
  by (simp add: py_max_def py_min_def clamp_def max_def min_def)

lemma clamp_mono: "x \<le> y \<Longrightarrow> clamp lo hi x \<le> clamp lo hi y"
  by (simp add: clamp_def max_def min_def)

lemma clamp_id: "lo \<le> x \<Longrightarrow> x \<le> hi \<Longrightarrow> clamp lo hi x = x"
  by (simp add: clamp_def max_def min_def)

lemma scale_short: "length H < 10 \<Longrightarrow> scale_with_history H c = 50"
  by (simp add: scale_with_history_def)

lemma scale_flat: "np_std H < 1 / 10 ^ 8 \<Longrightarrow> scale_with_history H c = 50"
  by (simp add: scale_with_history_def Let_def)

lemma scale_flat_sample:
  assumes "sample_std H < 1 / 10 ^ 8"
  shows "scale_with_history H c = 50"
proof (cases "length H < 10")
  case True
  then show ?thesis by (rule scale_short)
next
  case False
  then have "np_std H \<le> sample_std H"
    by (intro np_std_le_sample_std) simp
  then have "np_std H < 1 / 10 ^ 8"
    using assms by linarith
  then show ?thesis by (rule scale_flat)
qed

lemma scale_main:
  assumes "10 \<le> length H" and "1 / 10 ^ 8 \<le> np_std H"
  shows "scale_with_history H (Some c)
           = clamp 0 100 (0.5 * (1 + erf ((c - np_mean H) / np_std H / sqrt 2)) * 100)"
proof -
  have "\<not> length H < 10" and "\<not> np_std H < 1 / 10 ^ 8"
    using assms by simp_all
  then show ?thesis
    by (simp add: scale_with_history_def Let_def py_clamp_eq)
qed

text \<open>A NaN reading against a history that passes both guards scores 100.\<close>

lemma scale_nan:
  assumes "10 \<le> length H" and "1 / 10 ^ 8 \<le> np_std H"
  shows "scale_with_history H None = 100"
proof -
  have "\<not> length H < 10" and "\<not> np_std H < 1 / 10 ^ 8"
    using assms by simp_all
  then show ?thesis
    by (simp add: scale_with_history_def Let_def py_max_def py_min_def)
qed

lemma calculate_short: "len (get_history dm ticker) < 10 \<Longrightarrow> calculate dm ticker = Inr 50"
  by (simp add: calculate_def Let_def)

text \<open>
  Claim C2. The scorer degrades to the neutral score: \<open>calculate\<close> returns 50, and
  does not raise, for every frame of fewer than 10 rows; \<open>scale_with_history\<close>
  returns 50 for every history of fewer than 10 values, and for every history whose
  standard deviation is below \<open>1e-8\<close>, whatever the current reading (NaN included). The
  last holds for the standard deviation the code computes (divisor \<open>N\<close>) and for the
  sample standard deviation (divisor \<open>N - 1\<close>), which is never the smaller one.
\<close>

theorem degrade_to_neutral:
  "(len (get_history dm ticker) < 10 \<longrightarrow> calculate dm ticker = Inr 50)
   \<and> (length H1 < 10 \<longrightarrow> scale_with_history H1 c1 = 50)
   \<and> (np_std H2 < 1 / 10 ^ 8 \<longrightarrow> scale_with_history H2 c2 = 50)
   \<and> (sample_std H3 < 1 / 10 ^ 8 \<longrightarrow> scale_with_history H3 c3 = 50)"
  using calculate_short scale_short scale_flat scale_flat_sample by blast

theorem degrade_to_neutral_witness:
  "calculate (\<lambda>t. Inr \<lparr>index_len = 3, columns = [(''Close'', [Some 1, Some 2, Some 4])]\<rparr>) ''^VIX'' = Inr 50
   \<and> scale_with_history [1, 2, 3] (Some 7) = 50
   \<and> length [5, 5, 5, 5, 5, 5, 5, 5, 5, 5 :: real] = 10
   \<and> scale_with_history [5, 5, 5, 5, 5, 5, 5, 5, 5, 5] (Some 7) = 50
   \<and> scale_with_history [3, 3, 3, 3, 3, 3, 3, 3, 3, 3, 3] None = 50"
proof -
  have a: "len (get_history (\<lambda>t. Inr \<lparr>index_len = 3, columns = [(''Close'', [Some 1, Some 2, Some 4])]\<rparr>) ''^VIX'') < 10"
    by (simp add: len_def get_history_def)
  have b: "length [1, 2, 3 :: real] < 10" by simp
  have c: "np_std [5, 5, 5, 5, 5, 5, 5, 5, 5, 5] < 1 / 10 ^ 8"
    by (simp add: np_std_def np_mean_def)
  have "pd_std [3, 3, 3, 3, 3, 3, 3, 3, 3, 3, 3] < 1 / 10 ^ 8"
    by (simp add: pd_std_def np_mean_def)
  then have d: "sample_std [3, 3, 3, 3, 3, 3, 3, 3, 3, 3, 3] < 1 / 10 ^ 8"
    by (simp only: pd_std_eq_sample_std)
  show ?thesis
    using a b c d
      degrade_to_neutral [of "\<lambda>t. Inr \<lparr>index_len = 3, columns = [(''Close'', [Some 1, Some 2, Some 4])]\<rparr>"
        "''^VIX''" "[1, 2, 3]" "Some 7" "[5, 5, 5, 5, 5, 5, 5, 5, 5, 5]" "Some 7"
        "[3, 3, 3, 3, 3, 3, 3, 3, 3, 3, 3]" None]
    by simp
qed

text \<open>
  Claim C4. With the history fixed, the score does not decrease when the current reading
  grows: for all readings \<open>c1 \<le> c2\<close>, the score at \<open>c1\<close> is at most the score at
  \<open>c2\<close>.
\<close>

theorem score_monotone:
  assumes "c1 \<le> c2"
  shows "scale_with_history H (Some c1) \<le> scale_with_history H (Some c2)"
proof (cases "length H < 10 \<or> np_std H < 1 / 10 ^ 8")
  case True
  then show ?thesis
    using scale_short [of H] scale_flat [of H] by auto
next
  case False
  then have l: "10 \<le> length H" and s: "1 / 10 ^ 8 \<le> np_std H"
    by simp_all
  have pos: "0 < np_std H"
    using s by (rule less_le_trans [rotated]) simp
  have "(c1 - np_mean H) / np_std H \<le> (c2 - np_mean H) / np_std H"
    using assms pos by (simp add: divide_right_mono)
  then have "(c1 - np_mean H) / np_std H / sqrt 2 \<le> (c2 - np_mean H) / np_std H / sqrt 2"
    by (rule divide_right_mono) simp
  then have "erf ((c1 - np_mean H) / np_std H / sqrt 2) \<le> erf ((c2 - np_mean H) / np_std H / sqrt 2)"
    by (rule erf_mono)
  then have "0.5 * (1 + erf ((c1 - np_mean H) / np_std H / sqrt 2)) * 100
      \<le> 0.5 * (1 + erf ((c2 - np_mean H) / np_std H / sqrt 2)) * 100"
    by simp
  then show ?thesis
    unfolding scale_main [OF l s] by (rule clamp_mono)
qed

theorem score_monotone_witness:
  "scale_with_history [0, 0, 0, 0, 0, 2, 2, 2, 2, 2] (Some 1)
     \<le> scale_with_history [0, 0, 0, 0, 0, 2, 2, 2, 2, 2] (Some 3)"
  using score_monotone [of 1 3 "[0, 0, 0, 0, 0, 2, 2, 2, 2, 2]"] by simp

section \<open>The normalisation formula\<close>

text \<open>
  Claim C1, as amended. For every history \<open>H\<close> of at least 10 values whose standard
  deviation is at least \<open>1e-8\<close> and every current reading \<open>c\<close>, the score is
  \<open>100 * \<Phi> ((c - m) / s)\<close> clamped to \<open>[0, 100]\<close>, where \<open>m\<close> is the mean of
  \<open>H\<close> and \<open>s\<close> its standard deviation with divisor \<open>N\<close>, the number of values
  (the population form, \<^verbatim>\<open>np.std\<close>'s default), not the sample standard deviation with
  divisor \<open>N - 1\<close>.
\<close>

theorem normalisation_formula:
  assumes "10 \<le> length H" and "1 / 10 ^ 8 \<le> population_std H"
  shows "scale_with_history H (Some c)
           = clamp 0 100 (100 * Phi ((c - sample_mean H) / population_std H))"
proof -
  have s: "1 / 10 ^ 8 \<le> np_std H"
    using assms(2) by (simp add: np_std_eq_population_std)
  have "0.5 * (1 + erf ((c - np_mean H) / np_std H / sqrt 2)) * 100
      = 100 * Phi ((c - sample_mean H) / population_std H)"
    by (simp add: Phi_def np_std_eq_population_std np_mean_eq_sample_mean)
  then show ?thesis
    using scale_main [OF assms(1) s, of c] by simp
qed

lemma H0_np_mean: "np_mean [0, 0, 0, 0, 0, 2, 2, 2, 2, 2] = 1"
  by (simp add: np_mean_def)

lemma H0_np_std: "np_std [0, 0, 0, 0, 0, 2, 2, 2, 2, 2] = 1"
  by (simp add: np_std_def H0_np_mean) (simp add: np_mean_def)

lemma H0_pd_std: "pd_std [0, 0, 0, 0, 0, 2, 2, 2, 2, 2] = sqrt (10 / 9)"
  by (simp add: pd_std_def H0_np_mean)

theorem normalisation_formula_witness:
  "scale_with_history [0, 0, 0, 0, 0, 2, 2, 2, 2, 2] (Some 2) = clamp 0 100 (100 * Phi 1)"
proof -
  have m: "sample_mean [0, 0, 0, 0, 0, 2, 2, 2, 2, 2] = 1"
    using H0_np_mean by (simp only: np_mean_eq_sample_mean)
  have s: "population_std [0, 0, 0, 0, 0, 2, 2, 2, 2, 2] = 1"
    using H0_np_std by (simp only: np_std_eq_population_std)
  have l: "10 \<le> length [0, 0, 0, 0, 0, 2, 2, 2, 2, 2 :: real]" by simp
  have g: "1 / 10 ^ 8 \<le> population_std [0, 0, 0, 0, 0, 2, 2, 2, 2, 2]"
    unfolding s by simp
  show ?thesis
    using normalisation_formula [OF l g, of 2] by (simp add: m s)
qed

lemma erf_small:
  assumes "0 < x" and "x \<le> 1 / 2"
  shows "0 < erf x" and "erf x < 1"
proof -
  show "0 < erf x"
    using erf_strict_mono [OF assms(1)] by (simp add: erf_0)
  have p: "1 < sqrt pi"
    using pi_ge_two by simp
  have "erf x \<le> 2 / sqrt pi * x"
    using assms(1) by (intro erf_upper) simp
  also have "\<dots> \<le> 2 / sqrt pi * (1 / 2)"
    using assms(2) by (intro mult_left_mono) simp_all
  also have "\<dots> = 1 / sqrt pi"
    by simp
  also have "\<dots> < 1"
    using p by simp
  finally show "erf x < 1" .
qed

text \<open>
  Claim C1 as stated, with the sample standard deviation (divisor \<open>N - 1\<close>), fails: for
  five values 0 and five values 2 the mean is 1, \<^verbatim>\<open>np.std\<close> is 1 and the sample
  standard deviation is \<open>sqrt (10 / 9)\<close>, so at the reading 1.5 the code's z-score is
  0.5 and the stated one is smaller; the error function is strictly increasing and both
  scores lie strictly inside \<open>[0, 100]\<close>.
\<close>

theorem sample_std_counterexample:
  "10 \<le> length [0, 0, 0, 0, 0, 2, 2, 2, 2, 2 :: real]
   \<and> 1 / 10 ^ 8 \<le> sample_std [0, 0, 0, 0, 0, 2, 2, 2, 2, 2]
   \<and> scale_with_history [0, 0, 0, 0, 0, 2, 2, 2, 2, 2] (Some (3 / 2))
       \<noteq> clamp 0 100 (100 * Phi ((3 / 2 - sample_mean [0, 0, 0, 0, 0, 2, 2, 2, 2, 2])
                                  / sample_std [0, 0, 0, 0, 0, 2, 2, 2, 2, 2]))"
proof -
  let ?H = "[0, 0, 0, 0, 0, 2, 2, 2, 2, 2 :: real]"
  define u :: real where "u = 1 / 2 / sqrt 2"
  define v :: real where "v = 1 / 2 / sqrt (10 / 9) / sqrt 2"
  have m: "sample_mean ?H = 1"
    using H0_np_mean by (simp only: np_mean_eq_sample_mean)
  have s: "sample_std ?H = sqrt (10 / 9)"
    using H0_pd_std by (simp only: pd_std_eq_sample_std)
  have big: "1 < sqrt (10 / 9 :: real)"
    by simp
  have "1 / 10 ^ 8 \<le> (1 :: real)"
    by simp
  then have g: "1 / 10 ^ 8 \<le> sample_std ?H"
    unfolding s using big by linarith
  have v0: "0 < v"
    unfolding v_def by simp
  have "1 / 2 / sqrt (10 / 9) < (1 / 2 :: real)"
    using big by (simp add: divide_less_eq)
  then have vu: "v < u"
    unfolding u_def v_def by (rule divide_strict_right_mono) simp
  have "1 \<le> sqrt (2 :: real)"
    by simp
  then have u2: "u \<le> 1 / 2"
    unfolding u_def by (simp add: divide_le_eq)
  have eu: "0 < erf u" "erf u < 1"
    using erf_small [of u] v0 vu u2 by simp_all
  have ev: "0 < erf v" "erf v < 1"
    using erf_small [of v] v0 vu u2 by simp_all
  have lt: "erf v < erf u"
    using vu by (rule erf_strict_mono)
  have code: "scale_with_history ?H (Some (3 / 2)) = 0.5 * (1 + erf u) * 100"
  proof -
    have l: "10 \<le> length ?H" by simp
    have n: "1 / 10 ^ 8 \<le> np_std ?H"
      unfolding H0_np_std by simp
    have "(3 / 2 - np_mean ?H) / np_std ?H / sqrt 2 = u"
      unfolding H0_np_mean H0_np_std u_def by simp
    then have "scale_with_history ?H (Some (3 / 2)) = clamp 0 100 (0.5 * (1 + erf u) * 100)"
      unfolding scale_main [OF l n] by (rule arg_cong)
    also have "\<dots> = 0.5 * (1 + erf u) * 100"
      using eu by (intro clamp_id) simp_all
    finally show ?thesis .
  qed
  have spec: "clamp 0 100 (100 * Phi ((3 / 2 - sample_mean ?H) / sample_std ?H)) = 0.5 * (1 + erf v) * 100"
  proof -
    have "(3 / 2 - sample_mean ?H) / sample_std ?H / sqrt 2 = v"
      unfolding m s v_def by simp
    then have "100 * Phi ((3 / 2 - sample_mean ?H) / sample_std ?H) = 0.5 * (1 + erf v) * 100"
      unfolding Phi_def by simp
    then have "clamp 0 100 (100 * Phi ((3 / 2 - sample_mean ?H) / sample_std ?H))
        = clamp 0 100 (0.5 * (1 + erf v) * 100)"
      by (rule arg_cong)
    also have "\<dots> = 0.5 * (1 + erf v) * 100"
      using ev by (intro clamp_id) simp_all
    finally show ?thesis .
  qed
  have "0.5 * (1 + erf v) * 100 < 0.5 * (1 + erf u) * 100"
    using lt by simp
  then have "scale_with_history ?H (Some (3 / 2))
      \<noteq> clamp 0 100 (100 * Phi ((3 / 2 - sample_mean ?H) / sample_std ?H))"
    unfolding code spec by simp
  then show ?thesis
    using g by simp
qed

section \<open>The shipped configuration\<close>

lemma weights_of_TICKERS:
  "map (weights_get WEIGHTS) (map fst TICKERS) = [0.07, 0.10, 0.10, 0.05, 0.10, 0.10, 0.23, 0.25]"
  by (simp add: TICKERS_def WEIGHTS_def weights_get_def)

lemma compute_with_fst:
  "fst (compute_with inds wtab dm) =
     py_max 0 (py_min 100 (raw_composite (snd (compute_with inds wtab dm)) (map (weights_get wtab) inds)))"
  by (simp add: compute_with_def Let_def)

text \<open>
  Claim C10. Each of the eight configured instruments has a weight in the table, every
  weight is non-negative, and the weights sum to exactly 1. So the total weight that
  \<open>compute\<close> tests is positive, and for every provider the composite is the clamped
  weighted average: the unweighted mean is never taken.
\<close>

theorem shipped_weights_sum_to_one:
  "map fst WEIGHTS = map fst TICKERS
   \<and> length WEIGHTS = 8
   \<and> list_all (\<lambda>w. 0 \<le> w) (map snd WEIGHTS)
   \<and> sum_list (map snd WEIGHTS) = 1
   \<and> sum_list (map (weights_get WEIGHTS) (map fst TICKERS)) = 1
   \<and> 0 < sum_list (map (weights_get WEIGHTS) (map fst TICKERS))
   \<and> fst (compute dm) =
       py_max 0 (py_min 100
         (Some (np_average (snd (compute dm)) (map (weights_get WEIGHTS) (map fst TICKERS)))))"
proof -
  have s: "sum_list (map (weights_get WEIGHTS) (map fst TICKERS)) = 1"
    unfolding weights_of_TICKERS by simp
  have c: "fst (compute dm) =
       py_max 0 (py_min 100
         (Some (np_average (snd (compute dm)) (map (weights_get WEIGHTS) (map fst TICKERS)))))"
    unfolding compute_def compute_with_fst raw_composite_def s by simp
  have t: "map fst WEIGHTS = map fst TICKERS \<and> length WEIGHTS = 8
      \<and> list_all (\<lambda>w. 0 \<le> w) (map snd WEIGHTS) \<and> sum_list (map snd WEIGHTS) = 1"
    by (simp add: TICKERS_def WEIGHTS_def)
  show ?thesis using s c t by simp
qed

section \<open>The composite: \<^verbatim>\<open>CompositeStress.compute\<close>\<close>

lemma py_clamp_range: "0 \<le> py_max 0 (py_min 100 x) \<and> py_max 0 (py_min 100 x) \<le> 100"
  by (simp add: py_max_def py_min_def split: option.split)

lemma scale_range: "0 \<le> scale_with_history H c \<and> scale_with_history H c \<le> 100"
  using py_clamp_range by (simp add: scale_with_history_def Let_def)

lemma calculate_range:
  assumes "calculate dm t = Inr v"
  shows "0 \<le> v \<and> v \<le> 100"
  using assms scale_range
  by (auto simp: calculate_def Let_def split: if_splits sum.splits)

lemma score_or_neutral_range: "0 \<le> score_or_neutral dm t \<and> score_or_neutral dm t \<le> 100"
  using calculate_range [of dm t] by (simp add: score_or_neutral_def split: sum.split)

lemma collect_values_eq:
  "collect_values dm inds acc = acc @ map (score_or_neutral dm) inds"
proof (induction inds arbitrary: acc)
  case Nil
  show ?case by simp
next
  case (Cons t ts)
  have "(case calculate dm t of Inr v \<Rightarrow> v | Inl e \<Rightarrow> 50) = score_or_neutral dm t"
    by (simp add: score_or_neutral_def split: sum.split)
  then show ?case
    using Cons.IH [of "acc @ [score_or_neutral dm t]"] by simp
qed

lemma compute_with_snd: "snd (compute_with inds wtab dm) = map (score_or_neutral dm) inds"
  by (simp add: compute_with_def Let_def collect_values_eq)

lemma weighted_sum_lower:
  fixes xs ws :: "real list"
  assumes "length xs = length ws" and "\<forall>w\<in>set ws. 0 \<le> w" and "\<forall>x\<in>set xs. lo \<le> x"
  shows "lo * sum_list ws \<le> sum_list (map2 (*) xs ws)"
  using assms
proof (induction xs ws rule: list_induct2)
  case Nil
  show ?case by simp
next
  case (Cons x xs w ws)
  have "lo * w \<le> x * w"
    using Cons.prems by (intro mult_right_mono) simp_all
  moreover have "lo * sum_list ws \<le> sum_list (map2 (*) xs ws)"
    using Cons.IH Cons.prems by simp
  ultimately show ?case
    by (simp add: algebra_simps)
qed

lemma weighted_sum_upper:
  fixes xs ws :: "real list"
  assumes "length xs = length ws" and "\<forall>w\<in>set ws. 0 \<le> w" and "\<forall>x\<in>set xs. x \<le> hi"
  shows "sum_list (map2 (*) xs ws) \<le> hi * sum_list ws"
  using assms
proof (induction xs ws rule: list_induct2)
  case Nil
  show ?case by simp
next
  case (Cons x xs w ws)
  have "x * w \<le> hi * w"
    using Cons.prems by (intro mult_right_mono) simp_all
  moreover have "sum_list (map2 (*) xs ws) \<le> hi * sum_list ws"
    using Cons.IH Cons.prems by simp
  ultimately show ?case
    by (simp add: algebra_simps)
qed

lemma np_average_bounds:
  assumes "length xs = length ws" and "\<forall>w\<in>set ws. 0 \<le> w" and "0 < sum_list ws"
    and "\<forall>x\<in>set xs. lo \<le> x" and "\<forall>x\<in>set xs. x \<le> hi"
  shows "lo \<le> np_average xs ws \<and> np_average xs ws \<le> hi"
  using weighted_sum_lower [OF assms(1,2,4)] weighted_sum_upper [OF assms(1,2,5)] assms(3)
  by (simp add: np_average_def pos_le_divide_eq pos_divide_le_eq)

lemma np_mean_bounds:
  assumes "xs \<noteq> []" and "\<forall>x\<in>set xs. lo \<le> x" and "\<forall>x\<in>set xs. x \<le> hi"
  shows "lo \<le> np_mean xs \<and> np_mean xs \<le> hi"
proof -
  have l: "length xs = length (replicate (length xs) (1::real))" by simp
  have o: "\<forall>w\<in>set (replicate (length xs) (1::real)). 0 \<le> w" by simp
  have m: "map2 (*) xs (replicate (length xs) (1::real)) = xs"
    by (induction xs) simp_all
  have p: "0 < real (length xs)"
    using assms(1) by simp
  show ?thesis
    using weighted_sum_lower [OF l o assms(2)] weighted_sum_upper [OF l o assms(3)] p
    by (simp add: m np_mean_def sum_list_replicate pos_le_divide_eq pos_divide_le_eq)
qed

lemma raw_composite_bounds:
  assumes "xs \<noteq> []" and "length xs = length ws" and "\<forall>w\<in>set ws. 0 \<le> w"
    and "\<forall>x\<in>set xs. lo \<le> x" and "\<forall>x\<in>set xs. x \<le> hi"
  shows "\<exists>r. raw_composite xs ws = Some r \<and> lo \<le> r \<and> r \<le> hi"
proof (cases "0 < sum_list ws")
  case True
  then show ?thesis
    using np_average_bounds [OF assms(2,3) True assms(4,5)] by (simp add: raw_composite_def)
next
  case False
  then show ?thesis
    using np_mean_bounds [OF assms(1,4,5)] assms(1) by (simp add: raw_composite_def np_mean_nan_def)
qed

lemma compute_with_unclamped:
  assumes "inds \<noteq> []" and "\<forall>w\<in>set (map (weights_get wtab) inds). 0 \<le> w"
  shows "raw_composite (snd (compute_with inds wtab dm)) (map (weights_get wtab) inds)
           = Some (fst (compute_with inds wtab dm))"
proof -
  let ?vs = "map (score_or_neutral dm) inds"
  let ?ws = "map (weights_get wtab) inds"
  have ne: "?vs \<noteq> []" using assms(1) by simp
  have len: "length ?vs = length ?ws" by simp
  have lo: "\<forall>x\<in>set ?vs. 0 \<le> x" and hi: "\<forall>x\<in>set ?vs. x \<le> 100"
    using score_or_neutral_range by simp_all
  obtain r where r: "raw_composite ?vs ?ws = Some r" "0 \<le> r" "r \<le> 100"
    using raw_composite_bounds [OF ne len assms(2) lo hi] by blast
  have "py_max 0 (py_min 100 (Some r)) = r"
    using r(2,3) by (simp add: py_max_def py_min_def)
  then show ?thesis
    unfolding compute_with_fst compute_with_snd r(1) by simp
qed

text \<open>
  In exact arithmetic: the composite lies in \<open>[0, 100]\<close>, and with non-negative
  weights over a non-empty instrument list it lies between the smallest and the largest
  score.
\<close>

lemma exact_composite_bounded:
  "0 \<le> fst (compute_with inds wtab dm) \<and> fst (compute_with inds wtab dm) \<le> 100
   \<and> (inds \<noteq> [] \<longrightarrow> (\<forall>w\<in>set (map (weights_get wtab) inds). 0 \<le> w) \<longrightarrow>
        Min (set (snd (compute_with inds wtab dm))) \<le> fst (compute_with inds wtab dm)
        \<and> fst (compute_with inds wtab dm) \<le> Max (set (snd (compute_with inds wtab dm))))"
proof -
  have range: "0 \<le> fst (compute_with inds wtab dm) \<and> fst (compute_with inds wtab dm) \<le> 100"
    unfolding compute_with_fst by (rule py_clamp_range)
  have "Min (set (snd (compute_with inds wtab dm))) \<le> fst (compute_with inds wtab dm)
        \<and> fst (compute_with inds wtab dm) \<le> Max (set (snd (compute_with inds wtab dm)))"
    if ne: "inds \<noteq> []" and nonneg: "\<forall>w\<in>set (map (weights_get wtab) inds). 0 \<le> w"
  proof -
    let ?vs = "snd (compute_with inds wtab dm)"
    let ?ws = "map (weights_get wtab) inds"
    have vne: "?vs \<noteq> []" and len: "length ?vs = length ?ws"
      using ne by (simp_all add: compute_with_snd)
    have lo: "\<forall>x\<in>set ?vs. Min (set ?vs) \<le> x" and hi: "\<forall>x\<in>set ?vs. x \<le> Max (set ?vs)"
      by simp_all
    obtain r where r: "raw_composite ?vs ?ws = Some r" "Min (set ?vs) \<le> r" "r \<le> Max (set ?vs)"
      using raw_composite_bounds [OF vne len nonneg lo hi] by blast
    have "r = fst (compute_with inds wtab dm)"
      using compute_with_unclamped [OF ne nonneg, of dm] r(1) by simp
    then show ?thesis
      using r(2,3) by simp
  qed
  then show ?thesis
    using range by blast
qed


subsection \<open>Rounding to doubles\<close>

text \<open>
  A real whose magnitude times \<open>2 ^ k\<close> lies in \<open>[2 ^ 52, 2 ^ 53)\<close> is rounded on
  the grid of multiples of \<open>1 / 2 ^ k\<close>.
\<close>

lemma fl_0: "fl 0 = 0"
  by (simp add: fl_def)

lemma log2_power: "log 2 (2 ^ n) = real n"
  by (simp add: log_nat_power)

lemma floor_log2_scaled:
  fixes x :: real
  assumes "2 ^ 52 \<le> \<bar>x\<bar> * 2 ^ k" and "\<bar>x\<bar> * 2 ^ k < 2 ^ 53"
  shows "\<lfloor>log 2 \<bar>x\<bar>\<rfloor> = 52 - int k"
proof -
  have pos: "0 < \<bar>x\<bar>"
  proof (rule ccontr)
    assume "\<not> 0 < \<bar>x\<bar>"
    then have "\<bar>x\<bar> * 2 ^ k = 0" by simp
    then show False using assms(1) by simp
  qed
  let ?y = "\<bar>x\<bar> * 2 ^ k"
  have ypos: "0 < ?y"
    using pos by simp
  have sum: "log 2 ?y = log 2 \<bar>x\<bar> + real k"
    using pos by (simp add: log_mult log2_power)
  have "log 2 (2 ^ 52) \<le> log 2 ?y"
    using assms(1) ypos by (intro iffD2 [OF log_le_cancel_iff]) simp_all
  then have lo: "real 52 \<le> log 2 ?y"
    unfolding log2_power .
  have "log 2 ?y < log 2 (2 ^ 53)"
    using assms(2) ypos by (intro iffD2 [OF log_less_cancel_iff]) simp_all
  then have hi: "log 2 ?y < real 53"
    unfolding log2_power .
  have "real_of_int (52 - int k) \<le> log 2 \<bar>x\<bar>"
    and "log 2 \<bar>x\<bar> < real_of_int (52 - int k) + 1"
    using lo hi unfolding sum by simp_all
  then show ?thesis
    by (rule floor_unique)
qed

lemma fl_scaled:
  assumes "k \<le> 1074" and "2 ^ 52 \<le> \<bar>x\<bar> * 2 ^ k" and "\<bar>x\<bar> * 2 ^ k < 2 ^ 53"
  shows "fl x = of_int (round_half_even (x * 2 ^ k)) / 2 ^ k"
proof -
  have nz: "x \<noteq> 0"
    using assms(2) by auto
  have e: "max \<lfloor>log 2 \<bar>x\<bar>\<rfloor> (- 1022) - 52 = - int k"
    unfolding floor_log2_scaled [OF assms(2,3)] using assms(1) by simp
  have p: "(2 :: real) powi (- int k) = inverse (2 ^ k)"
    by (simp add: power_int_minus)
  show ?thesis
    using nz unfolding fl_def Let_def e p by (simp add: divide_inverse)
qed

lemma fl_tenth: "fl (1 / 10) = 3602879701896397 / 36028797018963968"
  by (simp add: fl_scaled [where k = 56] round_half_even_def)

lemma fl_fifth: "fl (2 / 10) = 3602879701896397 / 18014398509481984"
  by (simp add: fl_scaled [where k = 55] round_half_even_def)

lemma pairwise_sum_8:
  "pairwise_sum [a0, a1, a2, a3, a4, a5, a6, a7] = tree8 [a0, a1, a2, a3, a4, a5, a6, a7]"
  by (subst pairwise_sum.simps) simp

lemma compute_with_fl_snd: "snd (compute_with_fl inds wtab dm) = map (score_or_neutral dm) inds"
  by (simp add: compute_with_fl_def Let_def collect_values_eq)

lemma compute_with_fl_range:
  "0 \<le> fst (compute_with_fl inds wtab dm) \<and> fst (compute_with_fl inds wtab dm) \<le> 100"
  unfolding compute_with_fl_def Let_def fst_conv by (rule py_clamp_range)

lemma scores_all_fail:
  "map (score_or_neutral (\<lambda>t. Inl ProviderError)) (map fst TICKERS) = [50, 50, 50, 50, 50, 50, 50, 50]"
  by (simp add: TICKERS_def score_or_neutral_def calculate_def get_history_def DataFrame_def
      empty_def)

lemma weights_tenth_fifth:
  "map (\<lambda>t. fl (weights_get [(''EURUSD=X'', 0.1), (''GC=F'', 0.2)] t)) (map fst TICKERS)
     = [3602879701896397 / 36028797018963968, 3602879701896397 / 18014398509481984,
        0, 0, 0, 0, 0, 0]"
  using fl_tenth fl_fifth by (simp add: TICKERS_def weights_get_def fl_0)

lemma sum_tenth_fifth:
  "pairwise_sum [3602879701896397 / 36028797018963968, 3602879701896397 / 18014398509481984,
        0, 0, 0, 0, 0, 0] = 1351079888211149 / 4503599627370496"
  unfolding pairwise_sum_8 tree8_def
  by (simp add: fl_0 fl_scaled [where k = 54] round_half_even_def)

lemma products_tenth_fifth:
  "np_multiply_fl [50, 50, 50, 50, 50, 50, 50, 50]
     [3602879701896397 / 36028797018963968, 3602879701896397 / 18014398509481984,
        0, 0, 0, 0, 0, 0] = [5, 10, 0, 0, 0, 0, 0, 0]"
  unfolding np_multiply_fl_def
  by (simp add: fl_0 fl_scaled [where k = 50] fl_scaled [where k = 49] round_half_even_def)

lemma sum_products: "pairwise_sum [5, 10, 0, 0, 0, 0, 0, 0] = 15"
  unfolding pairwise_sum_8 tree8_def
  by (simp add: fl_0 fl_scaled [where k = 49] round_half_even_def)

lemma quotient_rounded:
  "fl (15 / (1351079888211149 / 4503599627370496)) = 7036874417766399 / 140737488355328"
  by (simp add: fl_scaled [where k = 47] round_half_even_def)

subsection \<open>A volatility spike\<close>

text \<open>
  Under \<open>example_spike\<close> the VIX scores 100 (its current reading is NaN against a
  history of ten values that passes both guards) and every other instrument 50; with the
  shipped weights the composite is \<open>50 + 0.23 * 50 = 61.5\<close>.
\<close>

lemma pd_std_flat: "pd_std [0, 0, 0, 0, 0, 0, 0, 0, 0, 0] = 0"
  by (simp add: pd_std_def np_mean_def)

lemma pd_std_drop: "pd_std [0, 0, 0, 0, 0, 0, 0, 0, 0, - 1] = sqrt (1 / 10)"
  by (simp add: pd_std_def np_mean_def power2_eq_square)

lemma spike_volatility:
  "volatility_of [Some 1, Some 1, Some 1, Some 1, Some 1, Some 1, Some 1, Some 1, Some 1, Some 1,
                Some 1, Some 1, Some 1, Some 1, Some 1, Some 1, Some 1, Some 1, Some 1, Some 0,
                Some 1]
     = [None, None, None, None, None, None, None, None, None, None,
        Some 0, Some 0, Some 0, Some 0, Some 0, Some 0, Some 0, Some 0, Some 0,
        Some (sqrt (1 / 10) * 100), None]"
  by (simp add: volatility_of_def rolling_std_def pct_change_def window_std_def pct_def
      pd_std_flat pd_std_drop)

lemma np_std_spike: "np_std [0, 0, 0, 0, 0, 0, 0, 0, 0, a] = 3 * \<bar>a\<bar> / 10"
proof -
  have "np_mean (map (\<lambda>x. (x - np_mean [0, 0, 0, 0, 0, 0, 0, 0, 0, a])\<^sup>2)
          [0, 0, 0, 0, 0, 0, 0, 0, 0, a]) = (3 * a / 10)\<^sup>2"
    by (simp add: np_mean_def power2_eq_square algebra_simps)
  then show ?thesis
    unfolding np_std_def by simp
qed

lemma spike_score: "calculate example_spike ''^VIX'' = Inr 100"
proof -
  let ?H = "[0, 0, 0, 0, 0, 0, 0, 0, 0, sqrt (1 / 10) * 100 :: real]"
  have "(1 / 100)\<^sup>2 \<le> (1 / 10 :: real)"
    by (simp add: power2_eq_square)
  then have "1 / 100 \<le> sqrt (1 / 10)"
    by (rule real_le_rsqrt)
  then have "1 / 10 ^ 8 \<le> np_std ?H"
    unfolding np_std_spike by simp
  then have "scale_with_history ?H None = 100"
    by (intro scale_nan) simp
  then show ?thesis
    by (simp add: calculate_def get_history_def example_spike_def empty_def len_def getitem_def
        Let_def spike_volatility dropna_def iloc_last_def)
qed

lemma spike_score_vix: "score_or_neutral example_spike ''^VIX'' = 100"
  by (simp add: score_or_neutral_def spike_score)

lemma spike_score_other: "t \<noteq> ''^VIX'' \<Longrightarrow> score_or_neutral example_spike t = 50"
  by (simp add: score_or_neutral_def calculate_def get_history_def example_spike_def
      DataFrame_def empty_def)

lemma spike_scores:
  "map (score_or_neutral example_spike) (map fst TICKERS) = [50, 50, 50, 50, 50, 50, 100, 50]"
  by (simp add: TICKERS_def spike_score_vix spike_score_other)

lemma spike_composite: "fst (compute example_spike) = 123 / 2"
proof -
  have "raw_composite [50, 50, 50, 50, 50, 50, 100, 50]
      [0.07, 0.10, 0.10, 0.05, 0.10, 0.10, 0.23, 0.25] = Some (123 / 2)"
    by (simp add: raw_composite_def np_average_def)
  then show ?thesis
    unfolding compute_def compute_with_fst compute_with_snd spike_scores weights_of_TICKERS
    by (simp add: py_max_def py_min_def)
qed

subsection \<open>The shipped weights in double arithmetic\<close>

text \<open>
  The doubles of the shipped weights sum to exactly 1. When every fetch fails the eight
  products sum to exactly 50 and the composite is exactly 50; under \<open>example_spike\<close>
  they sum to exactly 61.5, and so does the composite: on these inputs the doubles agree
  with exact arithmetic.
\<close>

lemma shipped_weights_double:
  "map (\<lambda>t. fl (weights_get WEIGHTS t)) (map fst TICKERS)
     = [fl 0.07, fl 0.10, fl 0.10, fl 0.05, fl 0.10, fl 0.10, fl 0.23, fl 0.25]"
  by (simp add: TICKERS_def WEIGHTS_def weights_get_def)

lemma shipped_weights_double_sum:
  "pairwise_sum [fl 0.07, fl 0.10, fl 0.10, fl 0.05, fl 0.10, fl 0.10, fl 0.23, fl 0.25] = 1"
  unfolding pairwise_sum_8 tree8_def
  by (simp add: fl_scaled [where k = 52] fl_scaled [where k = 53] fl_scaled [where k = 54]
      fl_scaled [where k = 55] fl_scaled [where k = 56] fl_scaled [where k = 57]
      round_half_even_def)

lemma shipped_products_double_sum:
  "pairwise_sum (np_multiply_fl [50, 50, 50, 50, 50, 50, 50, 50]
     [fl 0.07, fl 0.10, fl 0.10, fl 0.05, fl 0.10, fl 0.10, fl 0.23, fl 0.25]) = 50"
  unfolding np_multiply_fl_def
  apply (simp add: pairwise_sum_8 tree8_def)
  apply (simp add: fl_scaled [where k = 47] fl_scaled [where k = 48] fl_scaled [where k = 49]
      fl_scaled [where k = 50] fl_scaled [where k = 51]
      fl_scaled [where k = 54]
      fl_scaled [where k = 55] fl_scaled [where k = 56] fl_scaled [where k = 57]
      round_half_even_def)
  done

lemma fl_50: "fl 50 = 50"
  by (simp add: fl_scaled [where k = 47] round_half_even_def)

lemma all_fetches_fail_neutral_double:
  "compute_with_fl (map fst TICKERS) WEIGHTS (\<lambda>t. Inl ProviderError)
     = (50, [50, 50, 50, 50, 50, 50, 50, 50])"
proof -
  have "raw_composite_fl [50, 50, 50, 50, 50, 50, 50, 50]
      [fl 0.07, fl 0.10, fl 0.10, fl 0.05, fl 0.10, fl 0.10, fl 0.23, fl 0.25] = Some 50"
    unfolding raw_composite_fl_def np_average_fl_def shipped_weights_double_sum
      shipped_products_double_sum
    by (simp add: fl_50)
  then show ?thesis
    unfolding compute_with_fl_def Let_def collect_values_eq append_Nil scores_all_fail
      shipped_weights_double
    by (simp add: py_max_def py_min_def)
qed

lemma spike_products_double_sum:
  "pairwise_sum (np_multiply_fl [50, 50, 50, 50, 50, 50, 100, 50]
     [fl 0.07, fl 0.10, fl 0.10, fl 0.05, fl 0.10, fl 0.10, fl 0.23, fl 0.25]) = 123 / 2"
  unfolding np_multiply_fl_def
  apply (simp add: pairwise_sum_8 tree8_def)
  apply (simp add: fl_scaled [where k = 47] fl_scaled [where k = 48] fl_scaled [where k = 49]
      fl_scaled [where k = 50] fl_scaled [where k = 51]
      fl_scaled [where k = 54]
      fl_scaled [where k = 55] fl_scaled [where k = 56] fl_scaled [where k = 57]
      round_half_even_def)
  done

lemma fl_spike: "fl (123 / 2) = 123 / 2"
  by (simp add: fl_scaled [where k = 47] round_half_even_def)

lemma spike_composite_double:
  "compute_with_fl (map fst TICKERS) WEIGHTS example_spike
     = (123 / 2, [50, 50, 50, 50, 50, 50, 100, 50])"
proof -
  have "raw_composite_fl [50, 50, 50, 50, 50, 50, 100, 50]
      [fl 0.07, fl 0.10, fl 0.10, fl 0.05, fl 0.10, fl 0.10, fl 0.23, fl 0.25] = Some (123 / 2)"
    unfolding raw_composite_fl_def np_average_fl_def shipped_weights_double_sum
      spike_products_double_sum
    by (simp add: fl_spike)
  then show ?thesis
    unfolding compute_with_fl_def Let_def collect_values_eq append_Nil spike_scores
      shipped_weights_double
    by (simp add: py_max_def py_min_def)
qed

subsection \<open>The bounds of the composite\<close>

text \<open>
  Claim C3, as amended. For every weight vector and every provider the composite that
  \<open>compute\<close> returns lies in \<open>[0, 100]\<close>, in double arithmetic as in exact
  arithmetic. For a weight vector with non-negative entries the weighted average of the
  scores, computed in exact arithmetic, lies between the smallest and the largest of the
  per-instrument scores of the same call; the double that the code returns, rounded at
  every step, is not promised to.
\<close>

theorem composite_range_and_exact_bounds:
  "0 \<le> fst (compute_with_fl inds wtab dm) \<and> fst (compute_with_fl inds wtab dm) \<le> 100
   \<and> 0 \<le> fst (compute_with inds wtab dm) \<and> fst (compute_with inds wtab dm) \<le> 100
   \<and> (inds \<noteq> [] \<longrightarrow> (\<forall>w\<in>set (map (weights_get wtab) inds). 0 \<le> w) \<longrightarrow>
        Min (set (snd (compute_with inds wtab dm))) \<le> fst (compute_with inds wtab dm)
        \<and> fst (compute_with inds wtab dm) \<le> Max (set (snd (compute_with inds wtab dm))))"
  using compute_with_fl_range [of inds wtab dm] exact_composite_bounded [of inds wtab dm] by blast

theorem composite_range_and_exact_bounds_witness:
  "snd (compute example_spike) = [50, 50, 50, 50, 50, 50, 100, 50]
   \<and> fst (compute example_spike) = 123 / 2
   \<and> Min (set (snd (compute example_spike))) \<le> fst (compute example_spike)
   \<and> fst (compute example_spike) \<le> Max (set (snd (compute example_spike)))
   \<and> fst (compute_with_fl (map fst TICKERS) WEIGHTS example_spike) = 123 / 2
   \<and> 0 \<le> fst (compute_with_fl (map fst TICKERS) WEIGHTS example_spike)
   \<and> fst (compute_with_fl (map fst TICKERS) WEIGHTS example_spike) \<le> 100"
proof -
  have dbl: "fst (compute_with_fl (map fst TICKERS) WEIGHTS example_spike) = 123 / 2"
    by (simp add: spike_composite_double)
  have ne: "map fst TICKERS \<noteq> []"
    by (simp add: TICKERS_def)
  have nonneg: "\<forall>w\<in>set (map (weights_get WEIGHTS) (map fst TICKERS)). 0 \<le> w"
    unfolding weights_of_TICKERS by simp
  have s: "snd (compute example_spike) = [50, 50, 50, 50, 50, 50, 100, 50]"
    unfolding compute_def compute_with_snd by (rule spike_scores)
  show ?thesis
    using ne nonneg s spike_composite dbl
      composite_range_and_exact_bounds [of "map fst TICKERS" WEIGHTS example_spike]
    unfolding compute_def by blast
qed

text \<open>
  Claim C3 as stated fails in double arithmetic. Give the first two instruments the
  weights 0.1 and 0.2 and the others none (so 0.0), and let every fetch fail: every
  score is 50.0, the products sum to 15.0, the weights to 0.30000000000000004, and the
  quotient rounds to 49.99999999999999, one unit in the last place below the smallest
  score.
\<close>

theorem rounding_counterexample:
  "list_all (\<lambda>w. 0 \<le> w)
     (map (\<lambda>t. fl (weights_get [(''EURUSD=X'', 0.1), (''GC=F'', 0.2)] t)) (map fst TICKERS))
   \<and> snd (compute_with_fl (map fst TICKERS) [(''EURUSD=X'', 0.1), (''GC=F'', 0.2)]
          (\<lambda>t. Inl ProviderError)) = [50, 50, 50, 50, 50, 50, 50, 50]
   \<and> fst (compute_with_fl (map fst TICKERS) [(''EURUSD=X'', 0.1), (''GC=F'', 0.2)]
          (\<lambda>t. Inl ProviderError)) = 7036874417766399 / 140737488355328
   \<and> fst (compute_with_fl (map fst TICKERS) [(''EURUSD=X'', 0.1), (''GC=F'', 0.2)]
          (\<lambda>t. Inl ProviderError))
       < Min (set (snd (compute_with_fl (map fst TICKERS) [(''EURUSD=X'', 0.1), (''GC=F'', 0.2)]
          (\<lambda>t. Inl ProviderError))))"
proof -
  let ?W = "[(''EURUSD=X'', 0.1), (''GC=F'', 0.2)] :: (string \<times> real) list"
  let ?dm = "(\<lambda>t. Inl ProviderError) :: provider"
  have vs: "snd (compute_with_fl (map fst TICKERS) ?W ?dm) = [50, 50, 50, 50, 50, 50, 50, 50]"
    unfolding compute_with_fl_snd by (rule scores_all_fail)
  have raw: "raw_composite_fl [50, 50, 50, 50, 50, 50, 50, 50]
       [3602879701896397 / 36028797018963968, 3602879701896397 / 18014398509481984,
        0, 0, 0, 0, 0, 0] = Some (7036874417766399 / 140737488355328)"
    unfolding raw_composite_fl_def np_average_fl_def sum_tenth_fifth products_tenth_fifth
      sum_products quotient_rounded
    by simp
  have c: "fst (compute_with_fl (map fst TICKERS) ?W ?dm) = 7036874417766399 / 140737488355328"
    unfolding compute_with_fl_def Let_def fst_conv collect_values_eq append_Nil
      scores_all_fail weights_tenth_fifth raw
    by (simp add: py_max_def py_min_def)
  have w: "list_all (\<lambda>w. 0 \<le> w) (map (\<lambda>t. fl (weights_get ?W t)) (map fst TICKERS))"
    unfolding weights_tenth_fifth by simp
  show ?thesis
    unfolding vs c using w by simp
qed

lemma sum_list_map2_nth:
  fixes xs ys :: "real list"
  assumes "length xs = length ys"
  shows "sum_list (map2 f xs ys) = (\<Sum>i<length xs. f (xs ! i) (ys ! i))"
proof -
  have "sum_list (map2 f xs ys) = (\<Sum>i = 0..<length (map2 f xs ys). map2 f xs ys ! i)"
    by (rule sum_list_sum_nth)
  also have "\<dots> = (\<Sum>i<length xs. f (xs ! i) (ys ! i))"
    using assms by (simp add: atLeast0LessThan)
  finally show ?thesis .
qed

lemma np_average_eq_weighted_average:
  assumes "length vs = length ws"
  shows "np_average vs ws = weighted_average vs ws"
proof -
  have "sum_list (map2 (*) vs ws) = (\<Sum>i<length vs. ws ! i * vs ! i)"
    unfolding sum_list_map2_nth [OF assms] by (simp add: mult.commute)
  moreover have "sum_list ws = (\<Sum>i<length vs. ws ! i)"
    using sum_list_map_nth [of "\<lambda>x. x" ws] assms by simp
  ultimately show ?thesis
    by (simp add: np_average_def weighted_average_def)
qed

lemma weights_get_zip:
  assumes "distinct inds" and "length ws = length inds" and "set others \<inter> set inds = {}"
  shows "map (weights_get (zip inds ws)) (inds @ others) = ws @ replicate (length others) 0"
proof -
  have a: "map (weights_get (zip inds ws)) inds = ws"
  proof (rule nth_equalityI)
    show "length (map (weights_get (zip inds ws)) inds) = length ws"
      using assms(2) by simp
    fix i
    assume "i < length (map (weights_get (zip inds ws)) inds)"
    then have i: "i < length ws"
      using assms(2) by simp
    have "map_of (zip inds ws) (inds ! i) = Some (ws ! i)"
      using assms(1,2) i by (intro map_of_zip_nth) simp_all
    then show "map (weights_get (zip inds ws)) inds ! i = ws ! i"
      using i assms(2) by (simp add: weights_get_def)
  qed
  have "weights_get (zip inds ws) t = 0" if "t \<in> set others" for t
  proof -
    have "t \<notin> set inds"
      using that assms(3) by blast
    then have "map_of (zip inds ws) t = None"
      using assms(2) by simp
    then show ?thesis
      by (simp add: weights_get_def)
  qed
  then have b: "map (weights_get (zip inds ws)) others = replicate (length others) 0"
    by (simp add: map_replicate_const [symmetric] cong: map_cong)
  show ?thesis
    using a b by simp
qed

lemma WEIGHTS_zip:
  "WEIGHTS = zip (map fst TICKERS) [0.07, 0.10, 0.10, 0.05, 0.10, 0.10, 0.23, 0.25]"
  by (simp add: WEIGHTS_def TICKERS_def)

text \<open>
  Claim C8. Let the weight table give the instruments \<open>inds\<close> the non-negative weights
  \<open>ws\<close>, one each, and let \<open>others\<close> be instruments without an entry. Then
  \<open>compute_with\<close> returns the instruments' stress scores in order, and its composite is
  their weighted average with the weights \<open>ws\<close> for \<open>inds\<close> and 0 for \<open>others\<close>
  when the total weight is positive, and their unweighted arithmetic mean when the total
  weight is zero. \<open>compute_with\<close> is a total function: neither case fails.
\<close>

theorem composite_is_weighted_average:
  assumes "distinct inds" and "length ws = length inds" and "set others \<inter> set inds = {}"
    and "inds @ others \<noteq> []" and "\<forall>w\<in>set ws. 0 \<le> w"
  shows "snd (compute_with (inds @ others) (zip inds ws) dm) = map (score_or_neutral dm) (inds @ others)
    \<and> (0 < sum_list ws \<longrightarrow>
         fst (compute_with (inds @ others) (zip inds ws) dm)
           = weighted_average (map (score_or_neutral dm) (inds @ others))
               (ws @ replicate (length others) 0))
    \<and> (sum_list ws = 0 \<longrightarrow>
         fst (compute_with (inds @ others) (zip inds ws) dm)
           = sample_mean (map (score_or_neutral dm) (inds @ others)))"
proof -
  let ?inds = "inds @ others"
  let ?vs = "map (score_or_neutral dm) ?inds"
  let ?ws = "ws @ replicate (length others) 0"
  have wv: "map (weights_get (zip inds ws)) ?inds = ?ws"
    using assms(1,2,3) by (rule weights_get_zip)
  have nonneg: "\<forall>w\<in>set (map (weights_get (zip inds ws)) ?inds). 0 \<le> w"
    unfolding wv using assms(5) by auto
  have raw: "raw_composite ?vs ?ws = Some (fst (compute_with ?inds (zip inds ws) dm))"
    using compute_with_unclamped [OF assms(4) nonneg, of dm]
    unfolding compute_with_snd wv .
  have len: "length ?vs = length ?ws"
    using assms(2) by simp
  have ne: "?vs \<noteq> []"
    using assms(4) by simp
  have total: "sum_list ?ws = sum_list ws"
    by (simp add: sum_list_replicate)
  have "fst (compute_with ?inds (zip inds ws) dm) = weighted_average ?vs ?ws" if "0 < sum_list ws"
  proof -
    have "raw_composite ?vs ?ws = Some (np_average ?vs ?ws)"
      using that unfolding raw_composite_def total by simp
    then have "fst (compute_with ?inds (zip inds ws) dm) = np_average ?vs ?ws"
      using raw by simp
    then show ?thesis
      unfolding np_average_eq_weighted_average [OF len] .
  qed
  moreover have "fst (compute_with ?inds (zip inds ws) dm) = sample_mean ?vs" if "sum_list ws = 0"
  proof -
    have "raw_composite ?vs ?ws = Some (np_mean ?vs)"
      using that ne unfolding raw_composite_def total np_mean_nan_def by simp
    then have "fst (compute_with ?inds (zip inds ws) dm) = np_mean ?vs"
      using raw by simp
    then show ?thesis
      unfolding np_mean_eq_sample_mean .
  qed
  ultimately show ?thesis
    using compute_with_snd by blast
qed

theorem composite_is_weighted_average_witness:
  "fst (compute example_spike)
     = weighted_average (map (score_or_neutral example_spike) (map fst TICKERS))
         [0.07, 0.10, 0.10, 0.05, 0.10, 0.10, 0.23, 0.25]
   \<and> map (score_or_neutral example_spike) (map fst TICKERS) = [50, 50, 50, 50, 50, 50, 100, 50]
   \<and> fst (compute example_spike) = 123 / 2
   \<and> sample_mean [50, 50, 50, 50, 50, 50, 100, 50] = 225 / 4
   \<and> fst (compute_with [''^VIX'', ''GC=F''] [(''^VIX'', 2)] example_spike)
       = weighted_average (map (score_or_neutral example_spike) [''^VIX'', ''GC=F'']) [2, 0]
   \<and> fst (compute_with [''^VIX'', ''GC=F''] [(''^VIX'', 0)] example_spike)
       = sample_mean (map (score_or_neutral example_spike) [''^VIX'', ''GC=F''])
   \<and> map (score_or_neutral example_spike) [''^VIX'', ''GC=F''] = [100, 50]
   \<and> weighted_average [100, 50] [2, 0] = 100
   \<and> sample_mean [100, 50] = 75"
proof -
  let ?ws = "[0.07, 0.10, 0.10, 0.05, 0.10, 0.10, 0.23, 0.25] :: real list"
  have d: "distinct (map fst TICKERS)" and l: "length ?ws = length (map fst TICKERS)"
    and e: "set [] \<inter> set (map fst TICKERS) = {}" and n: "map fst TICKERS @ [] \<noteq> []"
    and p: "\<forall>w\<in>set ?ws. 0 \<le> w" and t: "0 < sum_list ?ws"
    by (simp_all add: TICKERS_def)
  have a: "fst (compute example_spike)
      = weighted_average (map (score_or_neutral example_spike) (map fst TICKERS)) ?ws"
    using composite_is_weighted_average [OF d l e n p, of example_spike] t
    unfolding compute_def WEIGHTS_zip by simp
  have d2: "distinct [''^VIX'']" and l2: "length [2 :: real] = length [''^VIX'']"
    and l3: "length [0 :: real] = length [''^VIX'']"
    and e2: "set [''GC=F''] \<inter> set [''^VIX''] = {}" and n2: "[''^VIX''] @ [''GC=F''] \<noteq> []"
    and p2: "\<forall>w\<in>set [2 :: real]. 0 \<le> w" and p3: "\<forall>w\<in>set [0 :: real]. 0 \<le> w"
    by simp_all
  have b: "fst (compute_with [''^VIX'', ''GC=F''] [(''^VIX'', 2)] example_spike)
       = weighted_average (map (score_or_neutral example_spike) [''^VIX'', ''GC=F'']) [2, 0]"
    using composite_is_weighted_average [OF d2 l2 e2 n2 p2, of example_spike] by simp
  have c: "fst (compute_with [''^VIX'', ''GC=F''] [(''^VIX'', 0)] example_spike)
       = sample_mean (map (score_or_neutral example_spike) [''^VIX'', ''GC=F''])"
    using composite_is_weighted_average [OF d2 l3 e2 n2 p3, of example_spike] by simp
  have s2: "map (score_or_neutral example_spike) [''^VIX'', ''GC=F''] = [100, 50]"
    by (simp add: spike_score_vix spike_score_other)
  have "np_average [100, 50] [2, 0] = 100"
    by (simp add: np_average_def)
  then have w: "weighted_average [100, 50] [2, 0] = 100"
    by (simp add: np_average_eq_weighted_average)
  have "np_mean [100, 50] = 75" and "np_mean [50, 50, 50, 50, 50, 50, 100, 50] = 225 / 4"
    by (simp_all add: np_mean_def)
  then have m: "sample_mean [100, 50] = 75"
    and m8: "sample_mean [50, 50, 50, 50, 50, 50, 100, 50] = 225 / 4"
    by (simp_all add: np_mean_eq_sample_mean)
  show ?thesis
    using a b c s2 w m m8 spike_scores spike_composite by simp
qed

lemma calculate_empty: "empty (get_history dm t) \<Longrightarrow> calculate dm t = Inr 50"
  by (simp add: calculate_def Let_def)

text \<open>
  Claim C7. When every instrument's fetch yields an empty frame (the provider raised, or
  returned no data), \<open>compute\<close> returns 50 for each of the eight instruments and the
  composite 50.
\<close>

theorem all_fetches_fail_neutral:
  assumes "\<forall>t\<in>set (map fst TICKERS). empty (get_history dm t)"
  shows "compute dm = (50, [50, 50, 50, 50, 50, 50, 50, 50])"
proof -
  have "score_or_neutral dm t = 50" if "t \<in> set (map fst TICKERS)" for t
  proof -
    have "empty (get_history dm t)"
      using assms that by blast
    then show ?thesis
      by (simp add: score_or_neutral_def calculate_empty)
  qed
  then have "map (score_or_neutral dm) (map fst TICKERS) = map (\<lambda>t. 50) (map fst TICKERS)"
    by (intro map_cong refl)
  then have vs: "snd (compute dm) = [50, 50, 50, 50, 50, 50, 50, 50]"
    unfolding compute_def compute_with_snd by (simp add: TICKERS_def)
  have "raw_composite [50, 50, 50, 50, 50, 50, 50, 50] [0.07, 0.10, 0.10, 0.05, 0.10, 0.10, 0.23, 0.25]
      = Some 50"
    by (simp add: raw_composite_def np_average_def)
  then have "fst (compute dm) = 50"
    using vs unfolding compute_def compute_with_fst weights_of_TICKERS
    by (simp add: py_max_def py_min_def)
  then show ?thesis
    using vs by (simp add: prod_eq_iff)
qed

theorem all_fetches_fail_neutral_witness:
  "compute (\<lambda>t. Inl ProviderError) = (50, [50, 50, 50, 50, 50, 50, 50, 50])"
proof -
  have "\<forall>t\<in>set (map fst TICKERS). empty (get_history (\<lambda>t. Inl ProviderError) t)"
    by (simp add: get_history_def DataFrame_def empty_def)
  then show ?thesis
    by (rule all_fetches_fail_neutral)
qed

text \<open>
  Claim C6. A provider exception never leaves \<open>get_history\<close>: the result is the empty
  frame and the instrument scores 50. An exception raised by \<open>calculate\<close> for one
  instrument never leaves \<open>compute_with\<close>: that instrument's score is 50, every other
  instrument keeps the score \<open>calculate\<close> returned, in order, and the composite is
  computed from them and lies in \<open>[0, 100]\<close>.
\<close>

theorem no_error_surfaces:
  "(dm t = Inl e \<longrightarrow> get_history dm t = DataFrame \<and> calculate dm t = Inr 50)
   \<and> snd (compute_with inds wtab dm) = map (score_or_neutral dm) inds
   \<and> (\<forall>i<length inds.
         (\<forall>e'. calculate dm (inds ! i) = Inl e' \<longrightarrow> snd (compute_with inds wtab dm) ! i = 50)
       \<and> (\<forall>v. calculate dm (inds ! i) = Inr v \<longrightarrow> snd (compute_with inds wtab dm) ! i = v))
   \<and> 0 \<le> fst (compute_with inds wtab dm) \<and> fst (compute_with inds wtab dm) \<le> 100"
proof -
  have a: "get_history dm t = DataFrame \<and> calculate dm t = Inr 50" if "dm t = Inl e"
  proof -
    have g: "get_history dm t = DataFrame"
      using that by (simp add: get_history_def)
    have "empty (get_history dm t)"
      unfolding g by (simp add: empty_def DataFrame_def)
    then show ?thesis
      using g calculate_empty by simp
  qed
  have b: "snd (compute_with inds wtab dm) ! i = 50"
    if "i < length inds" and "calculate dm (inds ! i) = Inl e'" for i e'
    using that by (simp add: compute_with_snd score_or_neutral_def)
  have c: "snd (compute_with inds wtab dm) ! i = v"
    if "i < length inds" and "calculate dm (inds ! i) = Inr v" for i v
    using that by (simp add: compute_with_snd score_or_neutral_def)
  have d: "0 \<le> fst (compute_with inds wtab dm) \<and> fst (compute_with inds wtab dm) \<le> 100"
    unfolding compute_with_fst by (rule py_clamp_range)
  show ?thesis
    using a b c d compute_with_snd by blast
qed

theorem no_error_surfaces_witness:
  "example_provider ''GC=F'' = Inl ProviderError
   \<and> get_history example_provider ''GC=F'' = DataFrame
   \<and> calculate example_provider ''GC=F'' = Inr 50
   \<and> calculate example_provider ''^VIX'' = Inl KeyError
   \<and> snd (compute_with [''GC=F'', ''^VIX''] WEIGHTS example_provider) ! 1 = 50
   \<and> 0 \<le> fst (compute_with [''GC=F'', ''^VIX''] WEIGHTS example_provider)
   \<and> fst (compute_with [''GC=F'', ''^VIX''] WEIGHTS example_provider) \<le> 100"
proof -
  have p: "example_provider ''GC=F'' = Inl ProviderError"
    by (simp add: example_provider_def)
  have k: "calculate example_provider ''^VIX'' = Inl KeyError"
    by (simp add: calculate_def get_history_def example_provider_def empty_def len_def
        getitem_def)
  have i: "(1::nat) < length [''GC=F'', ''^VIX'']" and n: "[''GC=F'', ''^VIX''] ! 1 = ''^VIX''"
    by simp_all
  show ?thesis
    using p k i n
      no_error_surfaces [of example_provider "''GC=F''" ProviderError "[''GC=F'', ''^VIX'']" WEIGHTS]
    by metis
qed

section \<open>The current reading and its history: \<^verbatim>\<open>VolatilityIndicator.calculate\<close>\<close>

lemma ffill_Some: "ffill prev (map Some ps) = map Some ps"
  by (induction ps arbitrary: prev) simp_all

lemma length_pct_from: "length (pct_from prev xs) = length xs"
  by (induction xs arbitrary: prev) simp_all

lemma pct_from_nth:
  "i < length xs \<Longrightarrow> pct_from prev xs ! i = pct (if i = 0 then prev else xs ! (i - 1)) (xs ! i)"
proof (induction xs arbitrary: prev i)
  case Nil
  then show ?case by simp
next
  case (Cons x xs)
  show ?case
  proof (cases i)
    case 0
    then show ?thesis by simp
  next
    case (Suc j)
    then have "j < length xs"
      using Cons.prems by simp
    then show ?thesis
      using Cons.IH [of j x] Suc by (cases j) simp_all
  qed
qed

lemma length_pct_change: "length (pct_change (map Some ps)) = length ps"
  by (simp add: pct_change_def ffill_Some length_pct_from)

lemma pct_change_nth:
  assumes "0 < i" and "i < length ps"
  shows "pct_change (map Some ps) ! i
           = (if ps ! (i - 1) = 0 then None else Some (ps ! i / ps ! (i - 1) - 1))"
  using assms by (simp add: pct_change_def ffill_Some pct_from_nth pct_def)

lemma length_rolling_std: "length (rolling_std w xs) = length xs"
  by (simp add: rolling_std_def)

lemma length_volatility_of: "length (volatility_of (map Some ps)) = length ps"
  by (simp add: volatility_of_def length_rolling_std length_pct_change)

lemma rolling_std_last:
  assumes "0 < w" and "w \<le> length xs"
  shows "last (rolling_std w xs) = window_std (drop (length xs - w) xs)"
proof -
  let ?f = "\<lambda>i. if i + 1 < w then None else window_std (take w (drop (i + 1 - w) xs))"
  have pos: "0 < length xs"
    using assms by linarith
  then have ne: "[0..<length xs] \<noteq> []"
    by simp
  have l: "last [0..<length xs] = length xs - 1"
    using pos by simp
  have "last (rolling_std w xs) = ?f (last [0..<length xs])"
    unfolding rolling_std_def by (rule last_map [OF ne])
  also have "\<dots> = ?f (length xs - 1)"
    unfolding l ..
  also have "\<dots> = window_std (take w (drop (length xs - w) xs))"
    using assms pos by simp
  also have "take w (drop (length xs - w) xs) = drop (length xs - w) xs"
    using assms by simp
  finally show ?thesis .
qed

lemma dropna_last:
  assumes "xs \<noteq> []" and "last xs = Some v"
  shows "dropna xs \<noteq> [] \<and> last (dropna xs) = v \<and> v \<in> set (dropna xs)"
proof -
  obtain ys where xs: "xs = ys @ [Some v]"
    using assms by (metis append_butlast_last_id)
  have "dropna xs = dropna ys @ [v]"
    unfolding xs by (simp add: dropna_def)
  then show ?thesis by simp
qed

lemma returns_window_defined:
  assumes "11 \<le> length ps"
    and "0 \<notin> set (take 10 (drop (length ps - 11) ps))"
  shows "None \<notin> set (drop (length ps - 10) (pct_change (map Some ps)))"
proof
  let ?rs = "pct_change (map Some ps)"
  assume "None \<in> set (drop (length ps - 10) ?rs)"
  then obtain k where k: "k < length (drop (length ps - 10) ?rs)"
      and n: "drop (length ps - 10) ?rs ! k = None"
    by (metis in_set_conv_nth)
  let ?i = "length ps - 10 + k"
  have i: "0 < ?i" "?i < length ps"
    using k assms(1) by (simp_all add: length_pct_change)
  have "?rs ! ?i = None"
    using n i by (simp add: length_pct_change)
  then have "ps ! (?i - 1) = 0"
    unfolding pct_change_nth [OF i] by (simp split: if_splits)
  moreover have "ps ! (?i - 1) = take 10 (drop (length ps - 11) ps) ! k"
    using k assms(1) by (simp add: length_pct_change)
  moreover have "k < length (take 10 (drop (length ps - 11) ps))"
    using k assms(1) by (simp add: length_pct_change)
  ultimately show False
    using assms(2) by (metis nth_mem)
qed

lemma volatility_last:
  assumes "11 \<le> length ps"
    and "0 \<notin> set (take 10 (drop (length ps - 11) ps))"
  shows "\<exists>v. last (volatility_of (map Some ps)) = Some v"
proof -
  let ?rs = "pct_change (map Some ps)"
  have len: "length ?rs = length ps"
    by (rule length_pct_change)
  have w: "window_std (drop (length ps - 10) ?rs) \<noteq> None"
    using returns_window_defined [OF assms] assms(1) by (simp add: window_std_def len)
  have ne: "rolling_std 10 ?rs \<noteq> []"
    using assms(1) length_rolling_std [of 10 ?rs] len by auto
  have "last (rolling_std 10 ?rs) = window_std (drop (length ps - 10) ?rs)"
    using rolling_std_last [of 10 ?rs] assms(1) len by simp
  then show ?thesis
    using w unfolding volatility_of_def last_map [OF ne] by auto
qed

text \<open>
  Claim C9, as amended. For every price series of at least 11 observations with no
  missing value and no zero close among the ten observations before the last, the last
  entry of the rolling volatility is defined; it is the current reading that
  \<open>calculate\<close> passes to \<open>scale_with_history\<close>, it is the most recent element of the
  history \<open>H\<close> (the rolling volatility without its undefined entries) passed with it,
  and so a member of \<open>H\<close>.
\<close>

theorem current_reading_in_history:
  assumes "11 \<le> length ps"
    and "0 \<notin> set (take 10 (drop (length ps - 11) ps))"
    and "dm t = Inr df"
    and "index_len df = length ps"
    and "map_of (columns df) ''Close'' = Some (map Some ps)"
  shows "\<exists>v. iloc_last (volatility_of (map Some ps)) = Inr (Some v)
           \<and> dropna (volatility_of (map Some ps)) \<noteq> []
           \<and> v = last (dropna (volatility_of (map Some ps)))
           \<and> v \<in> set (dropna (volatility_of (map Some ps)))
           \<and> calculate dm t
               = Inr (scale_with_history (dropna (volatility_of (map Some ps))) (Some v))"
proof -
  let ?vol = "volatility_of (map Some ps)"
  obtain v where v: "last ?vol = Some v"
    using volatility_last [OF assms(1,2)] by blast
  have ne: "?vol \<noteq> []"
    using assms(1) length_volatility_of [of ps] by auto
  then have cur: "iloc_last ?vol = Inr (Some v)"
    using v by (simp add: iloc_last_def)
  have "columns df \<noteq> []"
    using assms(5) by auto
  moreover have "10 \<le> index_len df" and "index_len df \<noteq> 0"
    using assms(1,4) by linarith+
  ultimately have guard: "\<not> (empty df \<or> len df < 10)"
    by (simp add: empty_def len_def)
  have "calculate dm t = Inr (scale_with_history (dropna ?vol) (Some v))"
    using guard cur assms(3,5) by (simp add: calculate_def get_history_def getitem_def Let_def)
  then show ?thesis
    using cur dropna_last [OF ne v] by blast
qed

theorem current_reading_in_history_witness:
  "\<exists>v. iloc_last (volatility_of (map Some [1, 2, 1, 2, 1, 2, 1, 2, 1, 2, 1])) = Inr (Some v)
     \<and> v \<in> set (dropna (volatility_of (map Some [1, 2, 1, 2, 1, 2, 1, 2, 1, 2, 1])))
     \<and> calculate (\<lambda>t. Inr \<lparr>index_len = 11,
            columns = [(''Close'', map Some [1, 2, 1, 2, 1, 2, 1, 2, 1, 2, 1])]\<rparr>) ''^VIX''
         = Inr (scale_with_history
             (dropna (volatility_of (map Some [1, 2, 1, 2, 1, 2, 1, 2, 1, 2, 1]))) (Some v))"
proof -
  let ?ps = "[1, 2, 1, 2, 1, 2, 1, 2, 1, 2, 1 :: real]"
  let ?df = "\<lparr>index_len = 11, columns = [(''Close'', map Some ?ps)]\<rparr>"
  have "\<exists>v. iloc_last (volatility_of (map Some ?ps)) = Inr (Some v)
           \<and> dropna (volatility_of (map Some ?ps)) \<noteq> []
           \<and> v = last (dropna (volatility_of (map Some ?ps)))
           \<and> v \<in> set (dropna (volatility_of (map Some ?ps)))
           \<and> calculate (\<lambda>t. Inr ?df) ''^VIX''
               = Inr (scale_with_history (dropna (volatility_of (map Some ?ps))) (Some v))"
    by (rule current_reading_in_history [of ?ps "\<lambda>t. Inr ?df" "''^VIX''" ?df]) simp_all
  then show ?thesis
    by blast
qed

text \<open>
  Claim C9 as stated fails for a series with a zero close: twelve observations, none
  missing, the eleventh being 0. The last return divides by 0, the last window holds a
  non-finite value, and the current reading is NaN, while the history is not empty.
\<close>

theorem zero_close_counterexample:
  "11 \<le> length [1, 1, 1, 1, 1, 1, 1, 1, 1, 1, 0, 1 :: real]
   \<and> iloc_last (volatility_of (map Some [1, 1, 1, 1, 1, 1, 1, 1, 1, 1, 0, 1])) = Inr None
   \<and> dropna (volatility_of (map Some [1, 1, 1, 1, 1, 1, 1, 1, 1, 1, 0, 1])) \<noteq> []"
  by (simp add: volatility_of_def rolling_std_def pct_change_def window_std_def pct_def
      iloc_last_def dropna_def)

section \<open>The comparison range of the previous session\<close>

text \<open>
  The comparison range ends on \<open>bdate_range(end, 2)[-2]\<close>: the business day before
  the reference date rolled back to a business day.
\<close>

lemma bdate_range_2: "bdate_range e 2 = [prev_bday (rollback e), rollback e]"
  by (simp add: bdate_range_def numeral_2_eq_2)

lemma last_business_day_eq: "last_business_day e = Inr (prev_bday (rollback e))"
  by (simp add: last_business_day_def bdate_range_2 py_index_def)

lemma comparison_range_eq:
  "comparison_range e = Inr (prev_bday (rollback e) - 365 * 3, prev_bday (rollback e))"
  by (simp add: comparison_range_def last_business_day_eq)

lemma weekday_range: "0 \<le> weekday d \<and> weekday d < 7"
  by (simp add: weekday_def)

lemma weekday_shift: "weekday (d - k) = (weekday d - k) mod 7"
  by (simp add: weekday_def mod_simps algebra_simps)

lemma weekday_pred: "0 < weekday d \<Longrightarrow> weekday (d - 1) = weekday d - 1"
  using weekday_range [of d] by (simp add: weekday_shift)

lemma weekday_monday:
  assumes "weekday d = 0"
  shows "weekday (d - 3) = 4" and "weekday (d - 2) = 5" and "weekday (d - 1) = 6"
  using assms by (simp_all add: weekday_shift)

text \<open>
  For a reference date that is a business day the range ends on the last business day
  strictly before it; for a Monday that is the Friday before.
\<close>

lemma business_day_reference:
  assumes "weekday d < 5"
  shows "\<exists>r. comparison_range d = Inr (r - 365 * 3, r) \<and> r < d \<and> weekday r < 5
           \<and> (\<forall>k. r < k \<and> k < d \<longrightarrow> 5 \<le> weekday k)"
proof -
  have r: "rollback d = d"
    using assms by (simp add: rollback_def)
  have "prev_bday d < d \<and> weekday (prev_bday d) < 5
      \<and> (\<forall>k. prev_bday d < k \<and> k < d \<longrightarrow> 5 \<le> weekday k)"
  proof (cases "weekday d = 0")
    case True
    have "5 \<le> weekday k" if "d - 3 < k" and "k < d" for k
    proof -
      have "k = d - 2 \<or> k = d - 1"
        using that by linarith
      then show ?thesis
        using weekday_monday [OF True] by auto
    qed
    then show ?thesis
      using True weekday_monday(1) [OF True] by (simp add: prev_bday_def)
  next
    case False
    then have "0 < weekday d"
      using weekday_range [of d] by linarith
    then have "weekday (d - 1) < 5"
      using assms weekday_pred [of d] by linarith
    then show ?thesis
      using False by (simp add: prev_bday_def)
  qed
  then show ?thesis
    unfolding comparison_range_eq r by blast
qed

lemma monday_reference:
  assumes "weekday d = 0"
  shows "comparison_range d = Inr (d - 3 - 365 * 3, d - 3) \<and> weekday (d - 3) = 4"
proof -
  have "rollback d = d" and "prev_bday d = d - 3"
    using assms by (simp_all add: rollback_def prev_bday_def)
  then show ?thesis
    unfolding comparison_range_eq using weekday_monday(1) [OF assms] by simp
qed

text \<open>
  For a Saturday or Sunday the reference date is first rolled back to the Friday, and the
  range ends one business day before that: on the Thursday, although the Friday is a
  business day strictly before the reference date.
\<close>

lemma weekend_reference:
  assumes "5 \<le> weekday d"
  shows "comparison_range d = Inr (rollback d - 1 - 365 * 3, rollback d - 1)
    \<and> rollback d < d \<and> weekday (rollback d) = 4 \<and> weekday (rollback d - 1) = 3"
proof -
  have r: "rollback d = d - (weekday d - 4)"
    using assms by (simp add: rollback_def)
  have f: "weekday (rollback d) = 4"
    unfolding r weekday_shift [of d "weekday d - 4"] by simp
  then have "prev_bday (rollback d) = rollback d - 1"
    by (simp add: prev_bday_def)
  moreover have "weekday (rollback d - 1) = 3"
    unfolding weekday_shift [of "rollback d" 1] f by simp
  moreover have "rollback d < d"
    unfolding r using assms by simp
  ultimately show ?thesis
    unfolding comparison_range_eq using f by simp
qed

text \<open>
  Claim C5 says that for every reference end date the comparison range ends on the last
  business day strictly before it. The code at the reference date Saturday 2025-07-05
  (ordinal 739437): the range ends on Thursday 2025-07-03 (ordinal 739435), and Friday
  2025-07-04 (ordinal 739436), a business day strictly before the Saturday, is skipped.
\<close>

theorem saturday_reference_ends_on_thursday:
  "weekday 739437 = 5
   \<and> comparison_range 739437 = Inr (739435 - 365 * 3, 739435)
   \<and> weekday 739435 = 3
   \<and> weekday 739436 = 4 \<and> (739435 :: date) < 739436 \<and> (739436 :: date) < 739437"
  by (simp add: comparison_range_eq rollback_def prev_bday_def weekday_def)

end
